theory Spec2Isabelle
  imports Main
begin

section \<open>The world the pipeline steps act on\<close>

text \<open>
  Every method of \<open>Qiime2Methods\<close> is static and keeps no state of its own: what a call
  changes is the file system and the operating system's processes. The model threads a
  record through every call: the contents of the files, keyed by path, and the log of the
  argument vectors handed to \<open>subprocess.run\<close>, oldest first.
\<close>

record world =
  files :: "string \<rightharpoonup> string"
  procs :: "string list list"

text \<open>The exceptions a call of this module can leave with.\<close>

datatype error = TypeError | ValueError | OverflowError | IndexError
  | StopIteration | FileNotFoundError | IsADirectoryError | FileExistsError | NotADirectoryError

text \<open>
  An external program is a black box. What it does is a parameter of the model: given the
  argument vector and the files, either the program cannot be started (\<open>subprocess.run\<close>
  then raises \<open>FileNotFoundError\<close>), or it runs, leaves the files in some state and exits
  with some status.
\<close>

datatype launch = NotLaunched | Exited int "string \<rightharpoonup> string"

type_synonym tools = "string list \<Rightarrow> (string \<rightharpoonup> string) \<Rightarrow> launch"

type_synonym outcome = "(error + unit) \<times> world"

text \<open>
  \<open>subprocess.run(cmd)\<close> with no \<open>check=True\<close>: the \<open>CompletedProcess\<close> it returns, and
  the exit status in it, are dropped by every caller. The call is logged whether or not the
  program could be started.
\<close>

definition subprocess_run :: "tools \<Rightarrow> string list \<Rightarrow> world \<Rightarrow> outcome" where
  "subprocess_run ext cmd w =
     (case ext cmd (files w) of
        NotLaunched \<Rightarrow> (Inl FileNotFoundError, w\<lparr>procs := procs w @ [cmd]\<rparr>)
      | Exited rc fs \<Rightarrow> (Inr (), \<lparr>files = fs, procs = procs w @ [cmd]\<rparr>))"

section \<open>Python's string helpers\<close>

definition digit_char :: "nat \<Rightarrow> char" where
  "digit_char d = ''0123456789'' ! d"

function str_nat :: "nat \<Rightarrow> string" where
  "str_nat n = (if n < 10 then [digit_char n] else str_nat (n div 10) @ [digit_char (n mod 10)])"
  by pat_completeness auto
termination
  by (relation "measure (\<lambda>n. n)") auto

declare str_nat.simps [simp del]

text \<open>\<open>str(i)\<close> of a Python int.\<close>

definition str_int :: "int \<Rightarrow> string" where
  "str_int i = (if i < 0 then CHR ''-'' # str_nat (nat (- i)) else str_nat (nat i))"

text \<open>\<open>os.path.basename\<close>: what follows the last slash.\<close>

definition basename :: "string \<Rightarrow> string" where
  "basename p = rev (takeWhile (\<lambda>c. c \<noteq> CHR ''/'') (rev p))"

text \<open>\<open>s.split('_')[0]\<close>: what precedes the first underscore (all of \<open>s\<close> when it has none).\<close>

definition split_underscore_0 :: "string \<Rightarrow> string" where
  "split_underscore_0 s = takeWhile (\<lambda>c. c \<noteq> CHR ''_'') s"

section \<open>The pipeline steps\<close>

definition rc_fastq :: "tools \<Rightarrow> string \<Rightarrow> string \<Rightarrow> world \<Rightarrow> outcome" where
  "rc_fastq ext input_fastq output_fastq w =
     (let cmd = [''reformat.sh'', ''ow=t'', ''rcomp=t'',
                 ''in='' @ input_fastq, ''out='' @ output_fastq]
      in subprocess_run ext cmd w)"

definition extract_its_se_cmd :: "string \<Rightarrow> string \<Rightarrow> string \<Rightarrow> int \<Rightarrow> string list" where
  "extract_its_se_cmd fastq_file output_folder log_folder cpu =
     [''itsxpress'',
      ''--threads'', str_int cpu,
      ''--single_end'',
      ''--fastq'', fastq_file,
      ''--region'', ''ITS1'',
      ''--taxa'', ''Fungi'',
      ''--cluster_id'', ''0.99'',
      ''--outfile'', output_folder @ ''/'' @ basename fastq_file,
      ''--log'', log_folder @ ''/'' @ split_underscore_0 (basename fastq_file) @ ''.log'',
      ''--threads'', str_int cpu]"

definition extract_its_se :: "tools \<Rightarrow> string \<Rightarrow> string \<Rightarrow> string \<Rightarrow> int \<Rightarrow> world \<Rightarrow> outcome" where
  "extract_its_se ext fastq_file output_folder log_folder cpu w =
     subprocess_run ext (extract_its_se_cmd fastq_file output_folder log_folder cpu) w"

definition extract_its_pe_cmd :: "string \<Rightarrow> string \<Rightarrow> string \<Rightarrow> string \<Rightarrow> int \<Rightarrow> string list" where
  "extract_its_pe_cmd fastq_r1 fastq_r2 output_folder log_folder cpu =
     [''itsxpress'',
      ''--threads'', str_int cpu,
      ''--fastq'', fastq_r1,
      ''--fastq2'', fastq_r2,
      ''--region'', ''ITS1'',
      ''--taxa'', ''Fungi'',
      ''--cluster_id'', ''0.99'',
      ''--outfile'', output_folder @ ''/'' @ basename fastq_r1,
      ''--outfile2'', output_folder @ ''/'' @ basename fastq_r2,
      ''--log'', log_folder @ ''/'' @ split_underscore_0 (basename fastq_r1) @ ''.log'',
      ''--threads'', str_int cpu]"

definition extract_its_pe ::
  "tools \<Rightarrow> string \<Rightarrow> string \<Rightarrow> string \<Rightarrow> string \<Rightarrow> int \<Rightarrow> world \<Rightarrow> outcome" where
  "extract_its_pe ext fastq_r1 fastq_r2 output_folder log_folder cpu w =
     subprocess_run ext (extract_its_pe_cmd fastq_r1 fastq_r2 output_folder log_folder cpu) w"

definition fix_fastq_se :: "tools \<Rightarrow> string \<Rightarrow> world \<Rightarrow> outcome" where
  "fix_fastq_se ext fastq_file w =
     (let cmd = [''python'', ''remove_empty_fastq_entries.py'', ''-f'', fastq_file]
      in subprocess_run ext cmd w)"

definition fix_fastq_pe_cmd :: "string \<Rightarrow> string \<Rightarrow> string list" where
  "fix_fastq_pe_cmd fastq_r1 fastq_r2 =
     [''python'', ''remove_empty_fastq_entries.py'', ''-f'', fastq_r1, ''-f2'', fastq_r2]"

definition fix_fastq_pe :: "tools \<Rightarrow> string \<Rightarrow> string \<Rightarrow> world \<Rightarrow> outcome" where
  "fix_fastq_pe ext fastq_r1 fastq_r2 w = subprocess_run ext (fix_fastq_pe_cmd fastq_r1 fastq_r2) w"

definition qiime2_import_fastq_se :: "tools \<Rightarrow> string \<Rightarrow> string \<Rightarrow> world \<Rightarrow> outcome" where
  "qiime2_import_fastq_se ext fastq_folder reads_qza w =
     (let cmd = [''qiime'', ''tools'', ''import'',
                 ''--type'', ''SampleData[SequencesWithQuality]'',
                 ''--input-format'', ''CasavaOneEightSingleLanePerSampleDirFmt'',
                 ''--input-path'', fastq_folder,
                 ''--output-path'', reads_qza]
      in subprocess_run ext cmd w)"

definition qiime2_import_fastq_pe :: "tools \<Rightarrow> string \<Rightarrow> string \<Rightarrow> world \<Rightarrow> outcome" where
  "qiime2_import_fastq_pe ext fastq_folder reads_qza w =
     (let cmd = [''qiime'', ''tools'', ''import'',
                 ''--type'', ''SampleData[PairedEndSequencesWithQuality]'',
                 ''--input-format'', ''CasavaOneEightSingleLanePerSampleDirFmt'',
                 ''--input-path'', fastq_folder,
                 ''--output-path'', reads_qza]
      in subprocess_run ext cmd w)"

definition qiime2_demux_summary :: "tools \<Rightarrow> string \<Rightarrow> string \<Rightarrow> world \<Rightarrow> outcome" where
  "qiime2_demux_summary ext reads_qza output_qzv w =
     (let cmd = [''qiime'', ''demux'', ''summarize'',
                 ''--p-n'', str_int 1000,
                 ''--i-data'', reads_qza,
                 ''--o-visualization'', output_qzv]
      in subprocess_run ext cmd w)"

definition qiime2_dada2_denoise_single ::
  "tools \<Rightarrow> string \<Rightarrow> string \<Rightarrow> string \<Rightarrow> string \<Rightarrow> world \<Rightarrow> outcome" where
  "qiime2_dada2_denoise_single ext reads_qza repseq_qza table_qza stats_qza w =
     (let cmd = [''qiime'', ''dada2'', ''denoise-single'',
                 ''--p-n-threads'', str_int 0,
                 ''--p-trim-left'', str_int 0,
                 ''--p-trunc-len'', str_int 0,
                 ''--i-demultiplexed-seqs'', reads_qza,
                 ''--o-representative-sequences'', repseq_qza,
                 ''--o-table'', table_qza,
                 ''--o-denoising-stats'', stats_qza]
      in subprocess_run ext cmd w)"

definition qiime2_dada2_denoise_paired ::
  "tools \<Rightarrow> string \<Rightarrow> string \<Rightarrow> string \<Rightarrow> string \<Rightarrow> world \<Rightarrow> outcome" where
  "qiime2_dada2_denoise_paired ext reads_qza repseq_qza table_qza stats_qza w =
     (let cmd = [''qiime'', ''dada2'', ''denoise-paired'',
                 ''--p-n-threads'', str_int 0,
                 ''--p-trim-left-f'', str_int 0,
                 ''--p-trim-left-r'', str_int 0,
                 ''--p-trunc-len-f'', str_int 0,
                 ''--p-trunc-len-r'', str_int 0,
                 ''--i-demultiplexed-seqs'', reads_qza,
                 ''--o-representative-sequences'', repseq_qza,
                 ''--o-table'', table_qza,
                 ''--o-denoising-stats'', stats_qza]
      in subprocess_run ext cmd w)"

definition qiime2_metadata_tabulate :: "tools \<Rightarrow> string \<Rightarrow> string \<Rightarrow> world \<Rightarrow> outcome" where
  "qiime2_metadata_tabulate ext stats_qza stats_qzv w =
     (let cmd = [''qiime'', ''metadata'', ''tabulate'',
                 ''--m-input-file'', stats_qza,
                 ''--o-visualization'', stats_qzv]
      in subprocess_run ext cmd w)"

definition qiime2_export :: "tools \<Rightarrow> string \<Rightarrow> string \<Rightarrow> world \<Rightarrow> outcome" where
  "qiime2_export ext qza output_folder w =
     (let cmd = [''qiime'', ''tools'', ''export'',
                 ''--input-path'', qza,
                 ''--output-path'', output_folder]
      in subprocess_run ext cmd w)"

definition qiime2_sample_summarize :: "tools \<Rightarrow> string \<Rightarrow> string \<Rightarrow> string \<Rightarrow> world \<Rightarrow> outcome" where
  "qiime2_sample_summarize ext metadata_file table_qza table_qzv w =
     (let cmd = [''qiime'', ''feature-table'', ''summarize'',
                 ''--m-sample-metadata-file'', metadata_file,
                 ''--i-table'', table_qza,
                 ''--o-visualization'', table_qzv]
      in subprocess_run ext cmd w)"

definition qiime2_seq_sumamry :: "tools \<Rightarrow> string \<Rightarrow> string \<Rightarrow> world \<Rightarrow> outcome" where
  "qiime2_seq_sumamry ext repseqs_qza repseqs_qzv w =
     (let cmd = [''qiime'', ''feature-table'', ''tabulate-seqs'',
                 ''--i-data'', repseqs_qza,
                 ''--o-visualization'', repseqs_qzv]
      in subprocess_run ext cmd w)"

definition qiime2_phylogeny ::
  "tools \<Rightarrow> string \<Rightarrow> string \<Rightarrow> string \<Rightarrow> string \<Rightarrow> string \<Rightarrow> world \<Rightarrow> outcome" where
  "qiime2_phylogeny ext repseqs_qza align_repseqs_qza masked_align_repseqs_qza
       unrooted_tree_qza rooted_tree_qza w =
     (let cmd = [''qiime'', ''phylogeny'', ''align-to-tree-mafft-fasttree'',
                 ''--p-n-threads'', ''auto'',
                 ''--i-sequences'', repseqs_qza,
                 ''--o-alignment'', align_repseqs_qza,
                 ''--o-masked-alignment'', masked_align_repseqs_qza,
                 ''--o-tree'', unrooted_tree_qza,
                 ''--o-rooted-tree'', rooted_tree_qza]
      in subprocess_run ext cmd w)"

text \<open>
  \<open>qiime2_core_diversity\<close> binds \<open>cmd\<close> and ends: the body has no \<open>subprocess.run\<close>, so the
  tools parameter is never consulted and the function returns \<open>None\<close>.
\<close>

definition qiime2_core_diversity_cmd :: "int \<Rightarrow> string \<Rightarrow> string \<Rightarrow> string \<Rightarrow> string \<Rightarrow> string list" where
  "qiime2_core_diversity_cmd cpu metadata_file rooted_tree_qza table_qza output_folder =
     [''qiime'', ''diversity'', ''core-metrics-phylogenetic'',
      ''--p-n-jobs-or-threads'', str_int cpu,
      ''--p-sampling-depth'', str_int 1000,
      ''--i-phylogeny'', rooted_tree_qza,
      ''--i-table'', table_qza,
      ''--m-metadata-file'', metadata_file,
      ''--output-dir'', output_folder @ ''/core-metrics-results'']"

definition qiime2_core_diversity ::
  "tools \<Rightarrow> int \<Rightarrow> string \<Rightarrow> string \<Rightarrow> string \<Rightarrow> string \<Rightarrow> world \<Rightarrow> outcome" where
  "qiime2_core_diversity ext cpu metadata_file rooted_tree_qza table_qza output_folder w =
     (let cmd = qiime2_core_diversity_cmd cpu metadata_file rooted_tree_qza table_qza output_folder
      in (Inr (), w))"

definition qiime2_rarefaction ::
  "tools \<Rightarrow> string \<Rightarrow> string \<Rightarrow> string \<Rightarrow> string \<Rightarrow> world \<Rightarrow> outcome" where
  "qiime2_rarefaction ext metadata_file rooted_tree_qza table_qza rare_qzv w =
     (let cmd = [''qiime'', ''diversity'', ''alpha-rarefaction'',
                 ''--p-max-depth'', str_int 4000,
                 ''--i-phylogeny'', rooted_tree_qza,
                 ''--i-table'', table_qza,
                 ''--m-metadata-file'', metadata_file,
                 ''--o-visualization'', rare_qzv]
      in subprocess_run ext cmd w)"

definition qiime2_classify :: "tools \<Rightarrow> string \<Rightarrow> string \<Rightarrow> string \<Rightarrow> world \<Rightarrow> outcome" where
  "qiime2_classify ext qiime2_classifier repseqs_qza taxonomy_qza w =
     (let cmd = [''qiime'', ''feature-classifier'', ''classify-sklearn'',
                 ''--p-n-jobs'', str_int (- 1),
                 ''--i-classifier'', qiime2_classifier,
                 ''--i-reads'', repseqs_qza,
                 ''--o-classification'', taxonomy_qza]
      in subprocess_run ext cmd w)"

definition biom_add_metadata :: "tools \<Rightarrow> string \<Rightarrow> string \<Rightarrow> string \<Rightarrow> world \<Rightarrow> outcome" where
  "biom_add_metadata ext input_biom taxonomy_tsv output_biom w =
     (let cmd = [''biom'', ''add-metadata'',
                 ''--sc-separated'', ''taxonomy'',
                 ''-i'', input_biom,
                 ''--observation-metadata-fp'', taxonomy_tsv,
                 ''-o'', output_biom]
      in subprocess_run ext cmd w)"

definition biom_convert_taxo :: "tools \<Rightarrow> string \<Rightarrow> string \<Rightarrow> string \<Rightarrow> world \<Rightarrow> outcome" where
  "biom_convert_taxo ext input_biom_taxo taxonomy_tsv output_tsv_taxo w =
     (let cmd = [''biom'', ''convert'',
                 ''--to-tsv'',
                 ''--header-key'', ''taxonomy'',
                 ''-i'', input_biom_taxo,
                 ''--observation-metadata-fp'', taxonomy_tsv,
                 ''-o'', output_tsv_taxo]
      in subprocess_run ext cmd w)"

definition qiime2_taxa_barplot ::
  "tools \<Rightarrow> string \<Rightarrow> string \<Rightarrow> string \<Rightarrow> string \<Rightarrow> world \<Rightarrow> outcome" where
  "qiime2_taxa_barplot ext table_qza taxonomy_qza metadata_file taxo_bar_plot_qzv w =
     (let cmd = [''qiime'', ''taxa'', ''barplot'',
                 ''--i-table'', table_qza,
                 ''--i-taxonomy'', taxonomy_qza,
                 ''--m-metadata-file'', metadata_file,
                 ''--o-visualization'', taxo_bar_plot_qzv]
      in subprocess_run ext cmd w)"

section \<open>The parallel dispatchers\<close>

text \<open>
  The three extraction and reorientation dispatchers size their pool, and the share of each
  worker, with \<open>int(cpu / 4)\<close>. In Python 3 \<open>/\<close> is true division: the quotient of two
  ints is the IEEE 754 double nearest to the exact quotient (ties to even), or
  \<open>OverflowError\<close> when that is beyond the doubles; \<open>int\<close> then truncates towards zero.
  Dividing by 4 only changes the exponent, so the double is the rounding of \<open>cpu\<close> to 53
  significant bits, divided by 4. The rounding is written out on the naturals: a number
  of more than 53 bits loses its \<open>s\<close> low bits, and goes up when they are more than half
  a unit, or half a unit exactly with an odd quotient.
\<close>

function bit_length :: "nat \<Rightarrow> nat" where
  "bit_length n = (if n = 0 then 0 else Suc (bit_length (n div 2)))"
  by pat_completeness auto
termination
  by (relation "measure (\<lambda>n. n)") auto

declare bit_length.simps [simp del]

definition round_double :: "nat \<Rightarrow> nat" where
  "round_double n =
     (let e = bit_length n in
      if e \<le> 53 then n
      else
        let s = e - 53; q = n div 2 ^ s; r = n mod 2 ^ s; h = 2 ^ (s - 1)
        in (if h < r \<or> (r = h \<and> odd q) then q + 1 else q) * 2 ^ s)"

definition int_cpu_over_4 :: "int \<Rightarrow> error + int" where
  "int_cpu_over_4 cpu =
     (let m = round_double (nat \<bar>cpu\<bar>) in
      if 2 ^ 1026 \<le> m then Inl OverflowError
      else Inr (if cpu < 0 then - int (m div 4) else int (m div 4)))"

text \<open>
  \<open>ThreadPoolExecutor(max_workers=n)\<close> refuses a pool of no workers; the value is the size
  of the pool.
\<close>

definition ThreadPoolExecutor :: "int \<Rightarrow> error + int" where
  "ThreadPoolExecutor max_workers = (if max_workers \<le> 0 then Inl ValueError else Inr max_workers)"

text \<open>
  \<open>executor.map(fn, args)\<close> submits one task per item, in the order of iteration, and the
  \<open>with\<close> block ends only when the pool has shut down. The workers share no state, so
  the model runs the tasks one after the other in the order of submission; the caller
  sees the exception of the first task that raised, if any, and the results are dropped.
\<close>

fun executor_map :: "('a \<Rightarrow> world \<Rightarrow> outcome) \<Rightarrow> 'a list \<Rightarrow> world \<Rightarrow> outcome" where
  "executor_map fn [] w = (Inr (), w)"
| "executor_map fn (x # xs) w =
     (case fn x w of (r, w1) \<Rightarrow>
        (case executor_map fn xs w1 of (rs, w2) \<Rightarrow>
           ((case r of Inl e \<Rightarrow> Inl e | Inr u \<Rightarrow> rs), w2)))"

text \<open>
  The tuples the dispatchers build hold strings and ints. \<open>lambda p: f(*p)\<close> unpacks a
  tuple into the positional parameters of \<open>f\<close>: a tuple of another length than the
  parameter list is a \<open>TypeError\<close>, raised before the body of \<open>f\<close> runs.
\<close>

datatype pyval = PyStr string | PyInt int

definition star_extract_its_se :: "tools \<Rightarrow> pyval list \<Rightarrow> world \<Rightarrow> outcome" where
  "star_extract_its_se ext p w =
     (case p of
        [PyStr fastq_file, PyStr output_folder, PyStr log_folder, PyInt cpu] \<Rightarrow>
          extract_its_se ext fastq_file output_folder log_folder cpu w
      | _ \<Rightarrow> (Inl TypeError, w))"

definition star_extract_its_pe :: "tools \<Rightarrow> pyval list \<Rightarrow> world \<Rightarrow> outcome" where
  "star_extract_its_pe ext p w =
     (case p of
        [PyStr fastq_r1, PyStr fastq_r2, PyStr output_folder, PyStr log_folder, PyInt cpu] \<Rightarrow>
          extract_its_pe ext fastq_r1 fastq_r2 output_folder log_folder cpu w
      | _ \<Rightarrow> (Inl TypeError, w))"

definition star_fix_fastq_pe :: "tools \<Rightarrow> pyval list \<Rightarrow> world \<Rightarrow> outcome" where
  "star_fix_fastq_pe ext p w =
     (case p of
        [PyStr fastq_r1, PyStr fastq_r2] \<Rightarrow> fix_fastq_pe ext fastq_r1 fastq_r2 w
      | _ \<Rightarrow> (Inl TypeError, w))"

text \<open>The pool of the dispatchers that give four cores to an instance.\<close>

definition quarter_pool :: "int \<Rightarrow> error + int" where
  "quarter_pool cpu =
     (case int_cpu_over_4 cpu of Inl e \<Rightarrow> Inl e | Inr max_workers \<Rightarrow> ThreadPoolExecutor max_workers)"

definition rc_fastq_parallel_args :: "string list \<Rightarrow> string \<Rightarrow> int \<Rightarrow> error + pyval list list" where
  "rc_fastq_parallel_args fastq_list output_folder cpu =
     (case int_cpu_over_4 cpu of
        Inl e \<Rightarrow> Inl e
      | Inr share \<Rightarrow> Inr (map (\<lambda>fastq. [PyStr fastq, PyStr output_folder, PyInt share]) fastq_list))"

definition rc_fastq_parallel :: "tools \<Rightarrow> string list \<Rightarrow> string \<Rightarrow> int \<Rightarrow> world \<Rightarrow> outcome" where
  "rc_fastq_parallel ext fastq_list output_folder cpu w =
     (case quarter_pool cpu of
        Inl e \<Rightarrow> (Inl e, w)
      | Inr executor \<Rightarrow>
          (case rc_fastq_parallel_args fastq_list output_folder cpu of
             Inl e \<Rightarrow> (Inl e, w)
           | Inr args \<Rightarrow> executor_map (star_extract_its_se ext) args w))"

definition extract_its_se_parallel_args ::
  "string list \<Rightarrow> string \<Rightarrow> string \<Rightarrow> int \<Rightarrow> error + pyval list list" where
  "extract_its_se_parallel_args fastq_list output_folder log_folder cpu =
     (case int_cpu_over_4 cpu of
        Inl e \<Rightarrow> Inl e
      | Inr share \<Rightarrow>
          Inr (map (\<lambda>fastq. [PyStr fastq, PyStr output_folder, PyStr log_folder, PyInt share]) fastq_list))"

definition extract_its_se_parallel ::
  "tools \<Rightarrow> string list \<Rightarrow> string \<Rightarrow> string \<Rightarrow> int \<Rightarrow> world \<Rightarrow> outcome" where
  "extract_its_se_parallel ext fastq_list output_folder log_folder cpu w =
     (case quarter_pool cpu of
        Inl e \<Rightarrow> (Inl e, w)
      | Inr executor \<Rightarrow>
          (case extract_its_se_parallel_args fastq_list output_folder log_folder cpu of
             Inl e \<Rightarrow> (Inl e, w)
           | Inr args \<Rightarrow> executor_map (star_extract_its_se ext) args w))"

text \<open>
  A sample dictionary maps a sample name to the list of its fastq files; the dispatchers
  read it with \<open>items()\<close>, in the order of insertion, so it is an association list here.
  The generator of the paired dispatchers takes \<open>fastq_list[0]\<close> and \<open>fastq_list[1]\<close>: a
  list of fewer than two files raises \<open>IndexError\<close> while \<open>executor.map\<close> is still
  submitting, so the tasks before it run and the ones after it are never made.
\<close>

fun paired_tuples ::
  "(string \<times> string list) list \<Rightarrow> pyval list \<Rightarrow> pyval list list \<times> (error + unit)" where
  "paired_tuples [] rest = ([], Inr ())"
| "paired_tuples ((sample, fastq_list) # items) rest =
     (case fastq_list of
        r1 # r2 # others \<Rightarrow>
          (case paired_tuples items rest of (ts, g) \<Rightarrow> ((PyStr r1 # PyStr r2 # rest) # ts, g))
      | _ \<Rightarrow> ([], Inl IndexError))"

definition extract_its_pe_parallel_args ::
  "(string \<times> string list) list \<Rightarrow> string \<Rightarrow> string \<Rightarrow> int
   \<Rightarrow> error + pyval list list \<times> (error + unit)" where
  "extract_its_pe_parallel_args sample_dict output_folder log_folder cpu =
     (case int_cpu_over_4 cpu of
        Inl e \<Rightarrow> Inl e
      | Inr share \<Rightarrow>
          Inr (paired_tuples sample_dict [PyStr output_folder, PyStr log_folder, PyInt share]))"

definition extract_its_pe_parallel ::
  "tools \<Rightarrow> (string \<times> string list) list \<Rightarrow> string \<Rightarrow> string \<Rightarrow> int \<Rightarrow> world \<Rightarrow> outcome" where
  "extract_its_pe_parallel ext sample_dict output_folder log_folder cpu w =
     (case quarter_pool cpu of
        Inl e \<Rightarrow> (Inl e, w)
      | Inr executor \<Rightarrow>
          (case extract_its_pe_parallel_args sample_dict output_folder log_folder cpu of
             Inl e \<Rightarrow> (Inl e, w)
           | Inr (args, g) \<Rightarrow>
               (case executor_map (star_extract_its_pe ext) args w of
                  (r, w') \<Rightarrow> ((case g of Inl e \<Rightarrow> Inl e | Inr u \<Rightarrow> r), w'))))"

definition fix_fastq_se_parallel :: "tools \<Rightarrow> string list \<Rightarrow> int \<Rightarrow> world \<Rightarrow> outcome" where
  "fix_fastq_se_parallel ext fastq_list cpu w =
     (case ThreadPoolExecutor cpu of
        Inl e \<Rightarrow> (Inl e, w)
      | Inr executor \<Rightarrow> executor_map (fix_fastq_se ext) fastq_list w)"

definition fix_fastq_pe_parallel ::
  "tools \<Rightarrow> (string \<times> string list) list \<Rightarrow> int \<Rightarrow> world \<Rightarrow> outcome" where
  "fix_fastq_pe_parallel ext sample_dict cpu w =
     (case ThreadPoolExecutor cpu of
        Inl e \<Rightarrow> (Inl e, w)
      | Inr executor \<Rightarrow>
          (case paired_tuples sample_dict [] of
             (args, g) \<Rightarrow>
               (case executor_map (star_fix_fastq_pe ext) args w of
                  (r, w') \<Rightarrow> ((case g of Inl e \<Rightarrow> Inl e | Inr u \<Rightarrow> r), w'))))"

section \<open>Listing the fastq files\<close>

text \<open>
  \<open>list_fastq\<close> only reads the directory tree. A node is what \<open>os.scandir\<close> and
  \<open>os.path\<close> can tell of an entry: a regular file, a directory with its entries in the
  order \<open>scandir\<close> gives them, a symbolic link to a file or to a directory, or anything else
  (a fifo, a socket, a dangling link). A view of the file system says what a path given by
  the caller resolves to, links followed.
\<close>

datatype fsnode = Regular | Directory "(string \<times> fsnode) list" | LinkToFile | LinkToDir | Special

type_synonym directory_view = "string \<Rightarrow> fsnode option"

text \<open>\<open>entry.is_dir()\<close>, \<open>os.path.islink\<close> and \<open>os.path.isfile\<close>; the first and the last follow links.\<close>

fun is_dir :: "fsnode \<Rightarrow> bool" where
  "is_dir (Directory entries) = True"
| "is_dir LinkToDir = True"
| "is_dir e = False"

fun islink :: "fsnode \<Rightarrow> bool" where
  "islink LinkToFile = True"
| "islink LinkToDir = True"
| "islink e = False"

fun isfile :: "fsnode \<Rightarrow> bool" where
  "isfile Regular = True"
| "isfile LinkToFile = True"
| "isfile e = False"

text \<open>\<open>str.startswith\<close>, \<open>str.endswith\<close> and \<open>os.path.join\<close> of \<open>posixpath\<close>.\<close>

definition startswith :: "string \<Rightarrow> string \<Rightarrow> bool" where
  "startswith s p = (take (length p) s = p)"

definition endswith :: "string \<Rightarrow> string \<Rightarrow> bool" where
  "endswith s x = (length x \<le> length s \<and> drop (length s - length x) s = x)"

definition path_join :: "string \<Rightarrow> string \<Rightarrow> string" where
  "path_join a b =
     (if startswith b ''/'' then b
      else if a = [] \<or> endswith a ''/'' then a @ b
      else a @ ''/'' @ b)"

text \<open>
  \<open>os.walk(top)\<close> with its defaults: top down, errors of \<open>scandir\<close> ignored (a top that is
  no directory yields nothing), links to directories listed among the directories and not
  walked into. It yields the triples \<open>(root, directories, filenames)\<close>; the model keeps the
  node beside each file name, since \<open>os.path.isfile(os.path.join(root, filename))\<close> asks
  about that very entry.
\<close>

fun os_walk :: "string \<Rightarrow> fsnode \<Rightarrow> (string \<times> string list \<times> (string \<times> fsnode) list) list" where
  "os_walk top_dir (Directory entries) =
     (let dirs = filter (\<lambda>entry. is_dir (snd entry)) entries;
          nondirs = filter (\<lambda>entry. \<not> is_dir (snd entry)) entries
      in (top_dir, map fst dirs, nondirs)
         # concat (map (\<lambda>entry. if islink (snd entry) then []
                                 else os_walk (path_join top_dir (fst entry)) (snd entry)) dirs))"
| "os_walk top_dir e = []"

definition fastq_suffix :: "string \<Rightarrow> bool" where
  "fastq_suffix filename =
     (endswith filename ''.fastq'' \<or> endswith filename ''.fastq.gz''
      \<or> endswith filename ''.fq'' \<or> endswith filename ''.fq.gz'')"

definition list_fastq :: "directory_view \<Rightarrow> string \<Rightarrow> string list" where
  "list_fastq view my_path =
     (case view my_path of
        None \<Rightarrow> []
      | Some node \<Rightarrow>
          concat (map (\<lambda>(root, directories, filenames).
                    map (\<lambda>entry. path_join root (fst entry))
                      (filter (\<lambda>entry. isfile (snd entry) \<and> fastq_suffix (fst entry)) filenames))
                  (os_walk my_path node)))"

text \<open>
  For the statement of what is listed: \<open>os.path.isabs\<close>, and the entries of the tree under
  \<open>top_dir\<close>, each with the path of the directory that holds it, links to directories not
  followed.
\<close>

definition isabs :: "string \<Rightarrow> bool" where
  "isabs p = startswith p ''/''"

inductive listed :: "string \<Rightarrow> fsnode \<Rightarrow> string \<Rightarrow> string \<Rightarrow> fsnode \<Rightarrow> bool" where
  here: "(name, e) \<in> set entries \<Longrightarrow> listed top_dir (Directory entries) top_dir name e"
| below: "(d, Directory sub) \<in> set entries
     \<Longrightarrow> listed (path_join top_dir d) (Directory sub) root name e
     \<Longrightarrow> listed top_dir (Directory entries) root name e"

section \<open>Rewriting the header of the taxonomy file\<close>

text \<open>
  \<open>change_taxonomy_file_header\<close> works on the contents of regular files, found by their
  path: a path with no file is a \<open>FileNotFoundError\<close> for \<open>open(path, 'r')\<close>, and two paths
  that differ name different files. Both files are opened in text mode with the default
  \<open>newline=None\<close>: on reading, \<open>\r\n\<close> and a lone \<open>\r\<close> become \<open>\n\<close> before the text is cut
  into lines, each with its \<open>\n\<close>; on writing, on POSIX, \<open>\n\<close> stays as it is.
\<close>

abbreviation LF :: char where "LF \<equiv> CHR 0x0A"
abbreviation CR :: char where "CR \<equiv> CHR 0x0D"
abbreviation TAB :: char where "TAB \<equiv> CHR 0x09"

fun universal_newlines :: "string \<Rightarrow> string" where
  "universal_newlines [] = []"
| "universal_newlines [c] = (if c = CR then [LF] else [c])"
| "universal_newlines (c # d # cs) =
     (if c = CR \<and> d = LF then LF # universal_newlines cs
      else if c = CR then LF # universal_newlines (d # cs)
      else c # universal_newlines (d # cs))"

fun split_lines :: "string \<Rightarrow> string list" where
  "split_lines [] = []"
| "split_lines (c # cs) =
     (if c = LF then [LF] # split_lines cs
      else (case split_lines cs of [] \<Rightarrow> [[c]] | l # ls \<Rightarrow> (c # l) # ls))"

text \<open>
  \<open>open(path, 'w')\<close> creates the file or empties it; \<open>write\<close> appends to it (the moment the
  buffer reaches the disk is not modelled); \<open>open(path, 'r')\<close> gives the lines of the file.
\<close>

definition open_w :: "string \<Rightarrow> world \<Rightarrow> world" where
  "open_w path w = w\<lparr>files := (files w)(path \<mapsto> [])\<rparr>"

definition write_file :: "string \<Rightarrow> string \<Rightarrow> world \<Rightarrow> world" where
  "write_file path s w =
     w\<lparr>files := (files w)(path \<mapsto> (case files w path of None \<Rightarrow> s | Some c \<Rightarrow> c @ s))\<rparr>"

definition open_r :: "string \<Rightarrow> world \<Rightarrow> error + string list" where
  "open_r path w =
     (case files w path of
        None \<Rightarrow> Inl FileNotFoundError
      | Some c \<Rightarrow> Inr (split_lines (universal_newlines c)))"

text \<open>The loop \<open>for line in in_f: out_f.write(line)\<close>, with the world after each write.\<close>

fun write_lines :: "string \<Rightarrow> string list \<Rightarrow> world \<Rightarrow> world list" where
  "write_lines path [] w = []"
| "write_lines path (line # lines) w =
     (let w' = write_file path line w in w' # write_lines path lines w')"

text \<open>\<open>os.replace(src, dst)\<close>: one step that makes \<open>dst\<close> name the file of \<open>src\<close>.\<close>

definition os_replace :: "string \<Rightarrow> string \<Rightarrow> world \<Rightarrow> outcome" where
  "os_replace src dst w =
     (case files w src of
        None \<Rightarrow> (Inl FileNotFoundError, w)
      | Some c \<Rightarrow> (Inr (), w\<lparr>files := ((files w)(dst \<mapsto> c))(src := None)\<rparr>))"

definition taxonomy_header :: string where
  "taxonomy_header = ''#OTUID'' @ [TAB] @ ''taxonomy'' @ [TAB] @ ''confidence'' @ [LF]"

text \<open>
  The function returns the exception it ends with, if any, and the worlds it goes through,
  one after each effect on the files; the last one is the world it leaves.
\<close>

definition change_taxonomy_file_header :: "string \<Rightarrow> world \<Rightarrow> (error + unit) \<times> world list" where
  "change_taxonomy_file_header input_taxo w =
     (let tmp = input_taxo @ ''.tmp'';
          w1 = open_w tmp w;
          w2 = write_file tmp taxonomy_header w1
      in case open_r input_taxo w2 of
           Inl e \<Rightarrow> (Inl e, [w1, w2])
         | Inr in_f \<Rightarrow>
             (case in_f of
                [] \<Rightarrow> (Inl StopIteration, [w1, w2])
              | skipped # lines \<Rightarrow>
                  (let ws = write_lines tmp lines w2 in
                   case os_replace tmp input_taxo (last (w2 # ws)) of
                     (r, w') \<Rightarrow> (r, [w1, w2] @ ws @ [w']))))"

section \<open>Creating the output folder\<close>

text \<open>
  \<open>make_folder\<close> is \<open>pathlib.Path(folder).mkdir(parents=True, exist_ok=True)\<close>. It acts on
  the tree of directories: the nodes, each keyed by the list of names that leads to it from
  the root, and the working directory. The root is always a directory. Links, permissions
  and the capacity of the disk are not in the model: the errors left are the ones the
  tree itself gives (\<open>ENOENT\<close>, \<open>ENOTDIR\<close>, \<open>EEXIST\<close>).
\<close>

datatype inode = IsFile | IsDir

record dirtree =
  nodes :: "string list \<rightharpoonup> inode"
  cwd :: "string list"

definition node_at :: "(string list \<rightharpoonup> inode) \<Rightarrow> string list \<Rightarrow> inode option" where
  "node_at t p = (if p = [] then Some IsDir else t p)"

text \<open>
  \<open>pathlib\<close> cuts the string at the slashes and drops the empty components and the dots;
  it keeps \<open>..\<close>, which the operating system resolves. A path that starts with a slash is
  read from the root, any other from the working directory.
\<close>

fun split_slash :: "string \<Rightarrow> string list" where
  "split_slash [] = [[]]"
| "split_slash (c # cs) =
     (if c = CHR ''/'' then [] # split_slash cs
      else (case split_slash cs of [] \<Rightarrow> [[c]] | p # ps \<Rightarrow> (c # p) # ps))"

definition path_parts :: "string \<Rightarrow> string list" where
  "path_parts folder = filter (\<lambda>c. c \<noteq> [] \<and> c \<noteq> ''.'') (split_slash folder)"

definition anchor :: "dirtree \<Rightarrow> string \<Rightarrow> string list" where
  "anchor s folder = (if startswith folder ''/'' then [] else cwd s)"

text \<open>
  The directory a list of components leads to from \<open>cur\<close>, as the kernel walks it: \<open>..\<close>
  goes to the parent (the root is its own parent), a missing name is \<open>ENOENT\<close>, a file
  used as a directory is \<open>ENOTDIR\<close>.
\<close>

fun resolve_dir :: "(string list \<rightharpoonup> inode) \<Rightarrow> string list \<Rightarrow> string list \<Rightarrow> error + string list" where
  "resolve_dir t cur [] = Inr cur"
| "resolve_dir t cur (c # cs) =
     (if c = ''..'' then resolve_dir t (butlast cur) cs
      else (case node_at t (cur @ [c]) of
              None \<Rightarrow> Inl FileNotFoundError
            | Some IsFile \<Rightarrow> Inl NotADirectoryError
            | Some IsDir \<Rightarrow> resolve_dir t (cur @ [c]) cs))"

text \<open>
  \<open>os.mkdir\<close>: the parent must resolve, and the last component must name nothing yet.
  \<open>Path.is_dir()\<close> is false on any error.
\<close>

definition os_mkdir ::
  "(string list \<rightharpoonup> inode) \<Rightarrow> string list \<Rightarrow> string list \<Rightarrow> error + (string list \<rightharpoonup> inode)" where
  "os_mkdir t start parts =
     (if parts = [] then Inl FileExistsError
      else (case resolve_dir t start (butlast parts) of
              Inl e \<Rightarrow> Inl e
            | Inr d \<Rightarrow>
                if last parts = ''..'' then Inl FileExistsError
                else (case node_at t (d @ [last parts]) of
                        Some n \<Rightarrow> Inl FileExistsError
                      | None \<Rightarrow> Inr (t(d @ [last parts] \<mapsto> IsDir)))))"

definition is_dir_path :: "(string list \<rightharpoonup> inode) \<Rightarrow> string list \<Rightarrow> string list \<Rightarrow> bool" where
  "is_dir_path t start parts = (case resolve_dir t start parts of Inl e \<Rightarrow> False | Inr d \<Rightarrow> True)"

text \<open>
  \<open>Path.mkdir\<close> as \<open>pathlib\<close> writes it: try \<open>os.mkdir\<close>; on \<open>FileNotFoundError\<close> make the
  parent with \<open>parents=True\<close> and try once more with \<open>parents=False\<close>; on any other
  \<open>OSError\<close> raise unless the path is a directory. The parent of a path is the path
  without its last component, and the anchor is its own parent.
\<close>

definition mkdir_exist_ok ::
  "(string list \<rightharpoonup> inode) \<Rightarrow> string list \<Rightarrow> string list \<Rightarrow> error + (string list \<rightharpoonup> inode)" where
  "mkdir_exist_ok t start parts =
     (case os_mkdir t start parts of
        Inr t' \<Rightarrow> Inr t'
      | Inl e \<Rightarrow>
          if e = FileNotFoundError then Inl e
          else if is_dir_path t start parts then Inr t else Inl e)"

function mkdir_parents ::
  "(string list \<rightharpoonup> inode) \<Rightarrow> string list \<Rightarrow> string list \<Rightarrow> error + (string list \<rightharpoonup> inode)" where
  "mkdir_parents t start parts =
     (case os_mkdir t start parts of
        Inr t' \<Rightarrow> Inr t'
      | Inl e \<Rightarrow>
          if e = FileNotFoundError then
            (if parts = [] then Inl e
             else (case mkdir_parents t start (butlast parts) of
                     Inl e' \<Rightarrow> Inl e'
                   | Inr t1 \<Rightarrow> mkdir_exist_ok t1 start parts))
          else if is_dir_path t start parts then Inr t else Inl e)"
  by pat_completeness auto
termination
  by (relation "measure (\<lambda>(t, start, parts). length parts)") auto

declare mkdir_parents.simps [simp del]

definition make_folder :: "string \<Rightarrow> dirtree \<Rightarrow> error + dirtree" where
  "make_folder folder s =
     (case mkdir_parents (nodes s) (anchor s folder) (path_parts folder) of
        Inl e \<Rightarrow> Inl e
      | Inr t \<Rightarrow> Inr (s\<lparr>nodes := t\<rparr>))"

text \<open>
  For the statements: the node a path names once every component exists, whether a file
  stands where the path needs a directory, whether every node has a directory for parent,
  and whether a tree has all the nodes of another and only directories more.
\<close>

fun canon :: "string list \<Rightarrow> string list \<Rightarrow> string list" where
  "canon cur [] = cur"
| "canon cur (c # cs) = (if c = ''..'' then canon (butlast cur) cs else canon (cur @ [c]) cs)"

fun no_file_on_path :: "(string list \<rightharpoonup> inode) \<Rightarrow> string list \<Rightarrow> string list \<Rightarrow> bool" where
  "no_file_on_path t cur [] = True"
| "no_file_on_path t cur (c # cs) =
     (if c = ''..'' then no_file_on_path t (butlast cur) cs
      else node_at t (cur @ [c]) \<noteq> Some IsFile \<and> no_file_on_path t (cur @ [c]) cs)"

definition well_formed :: "(string list \<rightharpoonup> inode) \<Rightarrow> bool" where
  "well_formed t = (\<forall>p. p \<noteq> [] \<and> t p \<noteq> None \<longrightarrow> node_at t (butlast p) = Some IsDir)"

definition grows :: "(string list \<rightharpoonup> inode) \<Rightarrow> (string list \<rightharpoonup> inode) \<Rightarrow> bool" where
  "grows t t' = (\<forall>p. (t p \<noteq> None \<longrightarrow> t' p = t p) \<and> (t p = None \<and> t' p \<noteq> None \<longrightarrow> t' p = Some IsDir))"

section \<open>Facts about the helpers\<close>

lemma str_int_1000: "str_int 1000 = ''1000''"
  by (simp add: str_int_def str_nat.simps digit_char_def)

lemma subprocess_run_procs: "procs (snd (subprocess_run ext cmd w)) = procs w @ [cmd]"
  by (simp add: subprocess_run_def split: launch.splits)

lemma subprocess_run_launched:
  "ext cmd (files w) \<noteq> NotLaunched \<Longrightarrow> fst (subprocess_run ext cmd w) = Inr ()"
  by (simp add: subprocess_run_def split: launch.splits)

section \<open>The core-diversity step\<close>

text \<open>
  C2. \<open>qiime2_core_diversity\<close> builds its argument vector, with \<open>--p-sampling-depth 1000\<close>
  and the output directory \<open>output_folder/core-metrics-results\<close> in it, and runs nothing:
  whatever the arguments and the tools, it returns normally with the world as it was, so the
  invocation log has no new entry and no file has changed.
\<close>

theorem qiime2_core_diversity_runs_nothing:
  "qiime2_core_diversity ext cpu metadata_file rooted_tree_qza table_qza output_folder w = (Inr (), w)
   \<and> procs (snd (qiime2_core_diversity ext cpu metadata_file rooted_tree_qza table_qza output_folder w))
       = procs w
   \<and> files (snd (qiime2_core_diversity ext cpu metadata_file rooted_tree_qza table_qza output_folder w))
       = files w
   \<and> take 2 (drop 5 (qiime2_core_diversity_cmd cpu metadata_file rooted_tree_qza table_qza output_folder))
       = [''--p-sampling-depth'', ''1000'']
   \<and> drop 13 (qiime2_core_diversity_cmd cpu metadata_file rooted_tree_qza table_qza output_folder)
       = [''--output-dir'', output_folder @ ''/core-metrics-results'']"
  by (simp add: qiime2_core_diversity_def qiime2_core_diversity_cmd_def str_int_1000)

section \<open>The paired steps\<close>

text \<open>
  C6. For every pair of mate paths, \<open>fix_fastq_pe\<close> and \<open>extract_its_pe\<close> each add exactly
  one entry to the invocation log, and that one argument vector names both mates:
  \<open>-f r1 -f2 r2\<close> for the fix, \<open>--fastq r1 --fastq2 r2\<close> for the extraction.
\<close>

theorem paired_steps_one_joint_invocation:
  "procs (snd (fix_fastq_pe ext fastq_r1 fastq_r2 w))
     = procs w @ [[''python'', ''remove_empty_fastq_entries.py'', ''-f'', fastq_r1, ''-f2'', fastq_r2]]
   \<and> procs (snd (extract_its_pe ext fastq_r1 fastq_r2 output_folder log_folder cpu w))
     = procs w @ [extract_its_pe_cmd fastq_r1 fastq_r2 output_folder log_folder cpu]
   \<and> take 4 (drop 3 (extract_its_pe_cmd fastq_r1 fastq_r2 output_folder log_folder cpu))
     = [''--fastq'', fastq_r1, ''--fastq2'', fastq_r2]"
  by (simp add: fix_fastq_pe_def fix_fastq_pe_cmd_def extract_its_pe_def subprocess_run_procs
      extract_its_pe_cmd_def)

section \<open>Exit statuses\<close>

text \<open>
  C7. Every step that calls \<open>subprocess.run\<close> returns normally whenever the program could
  be started, whatever status it exits with: the status is not read, and no error reaches
  the caller. (The arguments \<open>a\<close> to \<open>e\<close> stand for the string parameters of each step.)
\<close>

theorem exit_status_never_raised:
  assumes "\<And>cmd fs. ext cmd fs \<noteq> NotLaunched"
  shows "fst (rc_fastq ext a b w) = Inr ()
   \<and> fst (extract_its_se ext a b c cpu w) = Inr ()
   \<and> fst (extract_its_pe ext a b c d cpu w) = Inr ()
   \<and> fst (fix_fastq_se ext a w) = Inr ()
   \<and> fst (fix_fastq_pe ext a b w) = Inr ()
   \<and> fst (qiime2_import_fastq_se ext a b w) = Inr ()
   \<and> fst (qiime2_import_fastq_pe ext a b w) = Inr ()
   \<and> fst (qiime2_demux_summary ext a b w) = Inr ()
   \<and> fst (qiime2_dada2_denoise_single ext a b c d w) = Inr ()
   \<and> fst (qiime2_dada2_denoise_paired ext a b c d w) = Inr ()
   \<and> fst (qiime2_metadata_tabulate ext a b w) = Inr ()
   \<and> fst (qiime2_export ext a b w) = Inr ()
   \<and> fst (qiime2_sample_summarize ext a b c w) = Inr ()
   \<and> fst (qiime2_seq_sumamry ext a b w) = Inr ()
   \<and> fst (qiime2_phylogeny ext a b c d e w) = Inr ()
   \<and> fst (qiime2_rarefaction ext a b c d w) = Inr ()
   \<and> fst (qiime2_classify ext a b c w) = Inr ()
   \<and> fst (biom_add_metadata ext a b c w) = Inr ()
   \<and> fst (biom_convert_taxo ext a b c w) = Inr ()
   \<and> fst (qiime2_taxa_barplot ext a b c d w) = Inr ()"
  using assms
  by (simp add: subprocess_run_launched Let_def
      rc_fastq_def extract_its_se_def extract_its_pe_def fix_fastq_se_def fix_fastq_pe_def qiime2_import_fastq_se_def qiime2_import_fastq_pe_def qiime2_demux_summary_def qiime2_dada2_denoise_single_def qiime2_dada2_denoise_paired_def qiime2_metadata_tabulate_def qiime2_export_def qiime2_sample_summarize_def qiime2_seq_sumamry_def qiime2_phylogeny_def qiime2_rarefaction_def qiime2_classify_def biom_add_metadata_def biom_convert_taxo_def qiime2_taxa_barplot_def)

theorem exit_status_never_raised_witness:
  "(\<forall>cmd fs. (\<lambda>cmd fs. Exited 1 fs) cmd (fs :: string \<rightharpoonup> string) \<noteq> NotLaunched)
   \<and> fst (rc_fastq (\<lambda>cmd fs. Exited 1 fs) ''s1_R1.fastq'' ''s1_R2.fastq'' \<lparr>files = Map.empty, procs = []\<rparr>) = Inr ()
   \<and> fst (extract_its_se (\<lambda>cmd fs. Exited 1 fs) ''s1_R1.fastq'' ''s1_R2.fastq'' ''out'' 2 \<lparr>files = Map.empty, procs = []\<rparr>) = Inr ()
   \<and> fst (extract_its_pe (\<lambda>cmd fs. Exited 1 fs) ''s1_R1.fastq'' ''s1_R2.fastq'' ''out'' ''log'' 2 \<lparr>files = Map.empty, procs = []\<rparr>) = Inr ()
   \<and> fst (fix_fastq_se (\<lambda>cmd fs. Exited 1 fs) ''s1_R1.fastq'' \<lparr>files = Map.empty, procs = []\<rparr>) = Inr ()
   \<and> fst (fix_fastq_pe (\<lambda>cmd fs. Exited 1 fs) ''s1_R1.fastq'' ''s1_R2.fastq'' \<lparr>files = Map.empty, procs = []\<rparr>) = Inr ()
   \<and> fst (qiime2_import_fastq_se (\<lambda>cmd fs. Exited 1 fs) ''s1_R1.fastq'' ''s1_R2.fastq'' \<lparr>files = Map.empty, procs = []\<rparr>) = Inr ()
   \<and> fst (qiime2_import_fastq_pe (\<lambda>cmd fs. Exited 1 fs) ''s1_R1.fastq'' ''s1_R2.fastq'' \<lparr>files = Map.empty, procs = []\<rparr>) = Inr ()
   \<and> fst (qiime2_demux_summary (\<lambda>cmd fs. Exited 1 fs) ''s1_R1.fastq'' ''s1_R2.fastq'' \<lparr>files = Map.empty, procs = []\<rparr>) = Inr ()
   \<and> fst (qiime2_dada2_denoise_single (\<lambda>cmd fs. Exited 1 fs) ''s1_R1.fastq'' ''s1_R2.fastq'' ''out'' ''log'' \<lparr>files = Map.empty, procs = []\<rparr>) = Inr ()
   \<and> fst (qiime2_dada2_denoise_paired (\<lambda>cmd fs. Exited 1 fs) ''s1_R1.fastq'' ''s1_R2.fastq'' ''out'' ''log'' \<lparr>files = Map.empty, procs = []\<rparr>) = Inr ()
   \<and> fst (qiime2_metadata_tabulate (\<lambda>cmd fs. Exited 1 fs) ''s1_R1.fastq'' ''s1_R2.fastq'' \<lparr>files = Map.empty, procs = []\<rparr>) = Inr ()
   \<and> fst (qiime2_export (\<lambda>cmd fs. Exited 1 fs) ''s1_R1.fastq'' ''s1_R2.fastq'' \<lparr>files = Map.empty, procs = []\<rparr>) = Inr ()
   \<and> fst (qiime2_sample_summarize (\<lambda>cmd fs. Exited 1 fs) ''s1_R1.fastq'' ''s1_R2.fastq'' ''out'' \<lparr>files = Map.empty, procs = []\<rparr>) = Inr ()
   \<and> fst (qiime2_seq_sumamry (\<lambda>cmd fs. Exited 1 fs) ''s1_R1.fastq'' ''s1_R2.fastq'' \<lparr>files = Map.empty, procs = []\<rparr>) = Inr ()
   \<and> fst (qiime2_phylogeny (\<lambda>cmd fs. Exited 1 fs) ''s1_R1.fastq'' ''s1_R2.fastq'' ''out'' ''log'' ''tree.qza'' \<lparr>files = Map.empty, procs = []\<rparr>) = Inr ()
   \<and> fst (qiime2_rarefaction (\<lambda>cmd fs. Exited 1 fs) ''s1_R1.fastq'' ''s1_R2.fastq'' ''out'' ''log'' \<lparr>files = Map.empty, procs = []\<rparr>) = Inr ()
   \<and> fst (qiime2_classify (\<lambda>cmd fs. Exited 1 fs) ''s1_R1.fastq'' ''s1_R2.fastq'' ''out'' \<lparr>files = Map.empty, procs = []\<rparr>) = Inr ()
   \<and> fst (biom_add_metadata (\<lambda>cmd fs. Exited 1 fs) ''s1_R1.fastq'' ''s1_R2.fastq'' ''out'' \<lparr>files = Map.empty, procs = []\<rparr>) = Inr ()
   \<and> fst (biom_convert_taxo (\<lambda>cmd fs. Exited 1 fs) ''s1_R1.fastq'' ''s1_R2.fastq'' ''out'' \<lparr>files = Map.empty, procs = []\<rparr>) = Inr ()
   \<and> fst (qiime2_taxa_barplot (\<lambda>cmd fs. Exited 1 fs) ''s1_R1.fastq'' ''s1_R2.fastq'' ''out'' ''log'' \<lparr>files = Map.empty, procs = []\<rparr>) = Inr ()"
  using exit_status_never_raised [where ext = "(\<lambda>cmd fs. Exited 1 fs)"
      and w = "\<lparr>files = Map.empty, procs = []\<rparr>" and a = "''s1_R1.fastq''" and b = "''s1_R2.fastq''"
      and c = "''out''" and d = "''log''" and e = "''tree.qza''" and cpu = 2]
  by simp

section \<open>The arithmetic of \<open>int(cpu / 4)\<close>\<close>

lemma bit_length_le: "n < 2 ^ k \<Longrightarrow> bit_length n \<le> k"
proof (induction k arbitrary: n)
  case 0
  then show ?case by (simp add: bit_length.simps)
next
  case (Suc k)
  show ?case
  proof (cases "n = 0")
    case True
    then show ?thesis by (simp add: bit_length.simps)
  next
    case False
    from Suc.prems have "n div 2 < 2 ^ k" by simp
    then have "bit_length (n div 2) \<le> k" by (rule Suc.IH)
    with False show ?thesis by (subst bit_length.simps) simp
  qed
qed

lemma round_double_small: "n < 2 ^ 53 \<Longrightarrow> round_double n = n"
  using bit_length_le [of n 53] by (simp add: round_double_def)

lemma int_cpu_over_4_small:
  assumes "0 \<le> cpu" and "cpu < 2 ^ 53"
  shows "int_cpu_over_4 cpu = Inr (cpu div 4)"
proof -
  from assms have n: "nat \<bar>cpu\<bar> < 2 ^ 53" by (simp add: nat_less_iff)
  have small: "\<not> (2 :: nat) ^ 1026 \<le> nat \<bar>cpu\<bar>"
  proof
    assume "(2 :: nat) ^ 1026 \<le> nat \<bar>cpu\<bar>"
    moreover have "(2 :: nat) ^ 53 \<le> 2 ^ 1026" by (rule power_increasing) simp_all
    ultimately show False using n by simp
  qed
  from assms have "int (nat \<bar>cpu\<bar> div 4) = cpu div 4"
    by (simp add: zdiv_int)
  with n small assms show ?thesis
    by (simp add: int_cpu_over_4_def round_double_small Let_def)
qed

lemma bit_length_eq: "2 ^ k \<le> n \<Longrightarrow> n < 2 ^ Suc k \<Longrightarrow> bit_length n = Suc k"
proof (induction k arbitrary: n)
  case 0
  then have "n = 1" by simp
  then show ?case by (simp add: bit_length.simps)
next
  case (Suc k)
  from Suc.prems have "2 ^ k \<le> n div 2" and "n div 2 < 2 ^ Suc k" by simp_all
  then have "bit_length (n div 2) = Suc k" by (rule Suc.IH)
  moreover from Suc.prems have "n \<noteq> 0" by auto
  ultimately show ?case by (subst bit_length.simps) simp
qed

lemma bit_length_2_53_3: "bit_length 9007199254740995 = 54"
proof -
  have "bit_length 9007199254740995 = Suc 53"
    by (rule bit_length_eq) simp_all
  then show ?thesis by simp
qed

lemma round_double_2_53_3: "round_double 9007199254740995 = 9007199254740996"
  by (simp add: round_double_def bit_length_2_53_3 Let_def)

lemma quarter_pool_small:
  "0 \<le> cpu \<Longrightarrow> cpu < 2 ^ 53 \<Longrightarrow> quarter_pool cpu = ThreadPoolExecutor (cpu div 4)"
  by (simp add: quarter_pool_def int_cpu_over_4_small)

lemma executor_map_arity:
  "executor_map (star_extract_its_se ext)
     (map (\<lambda>fastq. [PyStr fastq, PyStr output_folder, PyInt share]) fastq_list) w
   = ((if fastq_list = [] then Inr () else Inl TypeError), w)"
  by (induction fastq_list) (simp_all add: star_extract_its_se_def)

lemma rc_fastq_parallel_raises:
  assumes "4 \<le> cpu" and "cpu < 2 ^ 53" and "fastq_list \<noteq> []"
  shows "rc_fastq_parallel ext fastq_list output_folder cpu w = (Inl TypeError, w)"
proof -
  from assms have "0 < cpu div 4" by (simp add: pos_imp_zdiv_pos_iff)
  with assms show ?thesis
    by (simp add: rc_fastq_parallel_def quarter_pool_small ThreadPoolExecutor_def
        rc_fastq_parallel_args_def int_cpu_over_4_small executor_map_arity)
qed

lemma executor_map_snd:
  "snd (executor_map fn (x # xs) w) = snd (executor_map fn xs (snd (fn x w)))"
  by (simp split: prod.splits)

lemma executor_map_procs:
  assumes "\<And>x w. procs (snd (fn x w)) = procs w @ [c x]"
  shows "procs (snd (executor_map fn xs w)) = procs w @ map c xs"
proof (induction xs arbitrary: w)
  case Nil
  show ?case by simp
next
  case (Cons x xs)
  have "procs (snd (executor_map fn (x # xs) w)) = procs (snd (fn x w)) @ map c xs"
    unfolding executor_map_snd by (rule Cons.IH)
  then show ?case by (simp add: assms)
qed

lemma executor_map_fst:
  assumes "\<And>x w. fst (fn x w) = Inr ()"
  shows "fst (executor_map fn xs w) = Inr ()"
proof (induction xs arbitrary: w)
  case Nil
  show ?case by simp
next
  case (Cons x xs)
  obtain r w1 where f: "fn x w = (r, w1)" by (cases "fn x w")
  obtain rs w2 where m: "executor_map fn xs w1 = (rs, w2)" by (cases "executor_map fn xs w1")
  from f assms [of x w] have r: "r = Inr ()" by simp
  from m Cons.IH [of w1] have rs: "rs = Inr ()" by simp
  show ?case by (simp add: f m r rs)
qed

lemma star_extract_its_se_4:
  "star_extract_its_se ext [PyStr a, PyStr b, PyStr c, PyInt n] w = extract_its_se ext a b c n w"
  by (simp add: star_extract_its_se_def)

lemma executor_map_se_procs:
  "procs (snd (executor_map (star_extract_its_se ext)
     (map (\<lambda>fastq. [PyStr fastq, PyStr output_folder, PyStr log_folder, PyInt share]) fastq_list) w))
   = procs w @ map (\<lambda>fastq. extract_its_se_cmd fastq output_folder log_folder share) fastq_list"
proof -
  let ?fn = "\<lambda>fastq. star_extract_its_se ext [PyStr fastq, PyStr output_folder, PyStr log_folder, PyInt share]"
  have "executor_map (star_extract_its_se ext)
     (map (\<lambda>fastq. [PyStr fastq, PyStr output_folder, PyStr log_folder, PyInt share]) fastq_list) w
     = executor_map ?fn fastq_list w" for w
    by (induction fastq_list arbitrary: w) simp_all
  moreover have "procs (snd (executor_map ?fn fastq_list w))
     = procs w @ map (\<lambda>fastq. extract_its_se_cmd fastq output_folder log_folder share) fastq_list"
    by (rule executor_map_procs) (simp add: star_extract_its_se_4 extract_its_se_def subprocess_run_procs)
  ultimately show ?thesis by simp
qed

lemma extract_its_se_parallel_procs:
  assumes "4 \<le> cpu" and "cpu < 2 ^ 53"
  shows "procs (snd (extract_its_se_parallel ext fastq_list output_folder log_folder cpu w))
    = procs w @ map (\<lambda>fastq. extract_its_se_cmd fastq output_folder log_folder (cpu div 4)) fastq_list"
proof -
  from assms have "0 < cpu div 4" by (simp add: pos_imp_zdiv_pos_iff)
  with assms show ?thesis
    by (simp add: extract_its_se_parallel_def quarter_pool_small ThreadPoolExecutor_def
        extract_its_se_parallel_args_def int_cpu_over_4_small executor_map_se_procs)
qed

text \<open>
  C3. As stated, for every non-negative \<open>cpu\<close>, the claim fails: \<open>int(cpu / 4)\<close> goes
  through a double. At \<open>cpu = 2^53 + 3\<close> the quotient is rounded up to \<open>2^51 + 1\<close>, while
  the floor of \<open>cpu / 4\<close> is \<open>2^51\<close>.
\<close>

theorem int_cpu_over_4_not_floor:
  "int_cpu_over_4 9007199254740995 \<noteq> Inr (9007199254740995 div 4)"
  by (simp add: int_cpu_over_4_def round_double_2_53_3 Let_def)

text \<open>
  C3, amended. For every \<open>cpu\<close> with \<open>0 \<le> cpu < 2^53\<close>, the expression that sizes the pool
  and the expression that gives each worker its share have the same value, the floor of
  \<open>cpu / 4\<close>: the pool is asked for with \<open>max_workers = cpu div 4\<close>, and every tuple of
  arguments ends with \<open>cpu div 4\<close>. For \<open>cpu = 8\<close> both are 2.
\<close>

theorem pool_size_and_share_are_floor_quarter:
  assumes "0 \<le> cpu" and "cpu < 2 ^ 53"
  shows "int_cpu_over_4 cpu = Inr (cpu div 4)
    \<and> quarter_pool cpu = ThreadPoolExecutor (cpu div 4)
    \<and> extract_its_se_parallel_args fastq_list output_folder log_folder cpu
        = Inr (map (\<lambda>fastq. [PyStr fastq, PyStr output_folder, PyStr log_folder, PyInt (cpu div 4)])
               fastq_list)
    \<and> extract_its_pe_parallel_args sample_dict output_folder log_folder cpu
        = Inr (paired_tuples sample_dict [PyStr output_folder, PyStr log_folder, PyInt (cpu div 4)])
    \<and> rc_fastq_parallel_args fastq_list output_folder cpu
        = Inr (map (\<lambda>fastq. [PyStr fastq, PyStr output_folder, PyInt (cpu div 4)]) fastq_list)"
  using assms
  by (simp add: int_cpu_over_4_small quarter_pool_small extract_its_se_parallel_args_def
      extract_its_pe_parallel_args_def rc_fastq_parallel_args_def)

theorem pool_size_and_share_are_floor_quarter_witness:
  "(0 :: int) \<le> 8 \<and> (8 :: int) < 2 ^ 53 \<and> int_cpu_over_4 8 = Inr 2 \<and> quarter_pool 8 = Inr 2
   \<and> extract_its_se_parallel_args [''s1_R1.fastq''] ''out'' ''log'' 8
       = Inr [[PyStr ''s1_R1.fastq'', PyStr ''out'', PyStr ''log'', PyInt 2]]
   \<and> extract_its_pe_parallel_args [(''s1'', [''s1_R1.fastq'', ''s1_R2.fastq''])] ''out'' ''log'' 8
       = Inr ([[PyStr ''s1_R1.fastq'', PyStr ''s1_R2.fastq'', PyStr ''out'', PyStr ''log'', PyInt 2]],
              Inr ())
   \<and> rc_fastq_parallel_args [''s1_R1.fastq''] ''out'' 8
       = Inr [[PyStr ''s1_R1.fastq'', PyStr ''out'', PyInt 2]]"
  using pool_size_and_share_are_floor_quarter [where cpu = 8 and fastq_list = "[''s1_R1.fastq'']"
      and output_folder = "''out''" and log_folder = "''log''"
      and sample_dict = "[(''s1'', [''s1_R1.fastq'', ''s1_R2.fastq''])]"]
  by (simp add: ThreadPoolExecutor_def)

section \<open>The dispatchers that call their own worker\<close>

text \<open>
  With a pool of at least one worker, the other dispatchers hand every item to their own
  step, once, in the order of the list or of the dictionary; \<open>extract_its_se_parallel\<close>
  above, and the three below.
\<close>

lemma executor_map_map:
  "executor_map fn (map g xs) w = executor_map (\<lambda>x. fn (g x)) xs w"
  by (induction xs arbitrary: w) simp_all

lemma fix_fastq_se_parallel_procs:
  assumes "0 < cpu"
  shows "procs (snd (fix_fastq_se_parallel ext fastq_list cpu w))
    = procs w @ map (\<lambda>fastq. [''python'', ''remove_empty_fastq_entries.py'', ''-f'', fastq]) fastq_list"
proof -
  have "procs (snd (executor_map (fix_fastq_se ext) fastq_list w))
    = procs w @ map (\<lambda>fastq. [''python'', ''remove_empty_fastq_entries.py'', ''-f'', fastq]) fastq_list"
    by (rule executor_map_procs) (simp add: fix_fastq_se_def subprocess_run_procs)
  with assms show ?thesis by (simp add: fix_fastq_se_parallel_def ThreadPoolExecutor_def)
qed

lemma paired_tuples_complete:
  "\<forall>item \<in> set sample_dict. 2 \<le> length (snd item)
   \<Longrightarrow> paired_tuples sample_dict rest
       = (map (\<lambda>item. PyStr (snd item ! 0) # PyStr (snd item ! 1) # rest) sample_dict, Inr ())"
proof (induction sample_dict)
  case Nil
  show ?case by simp
next
  case (Cons item items)
  obtain sample fastq_list where i: "item = (sample, fastq_list)" by (cases item)
  with Cons.prems obtain r1 r2 others where f: "fastq_list = r1 # r2 # others"
    by (cases fastq_list; cases "tl fastq_list") auto
  from Cons show ?case by (simp add: i f)
qed

lemma extract_its_pe_parallel_procs:
  assumes "4 \<le> cpu" and "cpu < 2 ^ 53" and "\<forall>item \<in> set sample_dict. 2 \<le> length (snd item)"
  shows "procs (snd (extract_its_pe_parallel ext sample_dict output_folder log_folder cpu w))
    = procs w @ map (\<lambda>item. extract_its_pe_cmd (snd item ! 0) (snd item ! 1) output_folder log_folder
                       (cpu div 4)) sample_dict"
proof -
  let ?fn = "\<lambda>item. star_extract_its_pe ext
     (PyStr (snd item ! 0) # PyStr (snd item ! 1) # [PyStr output_folder, PyStr log_folder, PyInt (cpu div 4)])"
  have m: "procs (snd (executor_map ?fn sample_dict w))
    = procs w @ map (\<lambda>item. extract_its_pe_cmd (snd item ! 0) (snd item ! 1) output_folder log_folder
                       (cpu div 4)) sample_dict"
    by (rule executor_map_procs) (simp add: star_extract_its_pe_def extract_its_pe_def subprocess_run_procs)
  from assms(1) have "0 < cpu div 4" by (simp add: pos_imp_zdiv_pos_iff)
  with assms m show ?thesis
    by (simp add: extract_its_pe_parallel_def quarter_pool_small ThreadPoolExecutor_def
        extract_its_pe_parallel_args_def int_cpu_over_4_small paired_tuples_complete
        executor_map_map split: prod.splits)
qed

lemma fix_fastq_pe_parallel_procs:
  assumes "0 < cpu" and "\<forall>item \<in> set sample_dict. 2 \<le> length (snd item)"
  shows "procs (snd (fix_fastq_pe_parallel ext sample_dict cpu w))
    = procs w @ map (\<lambda>item. fix_fastq_pe_cmd (snd item ! 0) (snd item ! 1)) sample_dict"
proof -
  let ?fn = "\<lambda>item. star_fix_fastq_pe ext (PyStr (snd item ! 0) # PyStr (snd item ! 1) # [])"
  have m: "procs (snd (executor_map ?fn sample_dict w))
    = procs w @ map (\<lambda>item. fix_fastq_pe_cmd (snd item ! 0) (snd item ! 1)) sample_dict"
    by (rule executor_map_procs) (simp add: star_fix_fastq_pe_def fix_fastq_pe_def subprocess_run_procs)
  with assms show ?thesis
    by (simp add: fix_fastq_pe_parallel_def ThreadPoolExecutor_def paired_tuples_complete
        executor_map_map split: prod.splits)
qed

section \<open>The reorientation dispatcher\<close>

text \<open>
  C1. \<open>rc_fastq_parallel\<close> maps \<open>extract_its_se\<close>, not \<open>rc_fastq\<close>, over tuples of three
  fields, and \<open>extract_its_se\<close> has four parameters. With two files and eight cores every
  task raises \<open>TypeError\<close> before it builds a command: the dispatcher raises, and the
  invocation log is as it was, with no \<open>reformat.sh\<close> run for either file.
\<close>

theorem rc_fastq_parallel_runs_nothing:
  "rc_fastq_parallel ext [''s1_R1.fastq'', ''s2_R1.fastq''] ''out'' 8 w = (Inl TypeError, w)
   \<and> procs (snd (rc_fastq_parallel ext [''s1_R1.fastq'', ''s2_R1.fastq''] ''out'' 8 w)) = procs w"
proof -
  have "rc_fastq_parallel ext [''s1_R1.fastq'', ''s2_R1.fastq''] ''out'' 8 w = (Inl TypeError, w)"
    by (rule rc_fastq_parallel_raises) simp_all
  then show ?thesis by simp
qed

section \<open>What \<open>list_fastq\<close> returns\<close>

lemma dir_not_link: "is_dir e \<Longrightarrow> \<not> islink e \<Longrightarrow> \<exists>sub. e = Directory sub"
  by (cases e) simp_all

lemma set_os_walk_Directory:
  "set (os_walk top_dir (Directory entries))
   = insert (top_dir, map fst (filter (\<lambda>entry. is_dir (snd entry)) entries),
               filter (\<lambda>entry. \<not> is_dir (snd entry)) entries)
       (\<Union>entry \<in> {x \<in> set entries. is_dir (snd x) \<and> \<not> islink (snd x)}.
          set (os_walk (path_join top_dir (fst entry)) (snd entry)))"
  by (auto simp: Let_def)

lemma in_list_fastq:
  assumes "view my_path = Some node"
  shows "p \<in> set (list_fastq view my_path) \<longleftrightarrow>
    (\<exists>root dirs nondirs name e. (root, dirs, nondirs) \<in> set (os_walk my_path node)
       \<and> (name, e) \<in> set nondirs \<and> isfile e \<and> fastq_suffix name \<and> p = path_join root name)"
    (is "?L \<longleftrightarrow> ?R")
proof -
  have eq: "set (list_fastq view my_path)
    = (\<Union>t \<in> set (os_walk my_path node).
         (\<lambda>entry. path_join (fst t) (fst entry))
           ` {x \<in> set (snd (snd t)). isfile (snd x) \<and> fastq_suffix (fst x)})"
    using assms by (simp add: list_fastq_def case_prod_beta)
  show ?thesis
  proof
    assume ?L
    then obtain t x where "t \<in> set (os_walk my_path node)" "x \<in> set (snd (snd t))"
      "isfile (snd x)" "fastq_suffix (fst x)" "p = path_join (fst t) (fst x)"
      unfolding eq by blast
    then have "(fst t, fst (snd t), snd (snd t)) \<in> set (os_walk my_path node)"
      "(fst x, snd x) \<in> set (snd (snd t))" by simp_all
    with \<open>isfile (snd x)\<close> \<open>fastq_suffix (fst x)\<close> \<open>p = path_join (fst t) (fst x)\<close>
    show ?R by blast
  next
    assume ?R
    then obtain root dirs nondirs name e where t: "(root, dirs, nondirs) \<in> set (os_walk my_path node)"
      and x: "(name, e) \<in> set nondirs" "isfile e" "fastq_suffix name" and p: "p = path_join root name"
      by blast
    from x have "(name, e) \<in> {x \<in> set (snd (snd (root, dirs, nondirs))). isfile (snd x) \<and> fastq_suffix (fst x)}"
      by simp
    then have "path_join (fst (root, dirs, nondirs)) (fst (name, e))
        \<in> (\<lambda>entry. path_join (fst (root, dirs, nondirs)) (fst entry))
           ` {x \<in> set (snd (snd (root, dirs, nondirs))). isfile (snd x) \<and> fastq_suffix (fst x)}"
      by (rule imageI)
    with t p show ?L unfolding eq by (intro UN_I [where a = "(root, dirs, nondirs)"]) simp_all
  qed
qed

lemma os_walk_listed:
  "(root, dirs, nondirs) \<in> set (os_walk top_dir node) \<Longrightarrow> (name, e) \<in> set nondirs
   \<Longrightarrow> listed top_dir node root name e \<and> \<not> is_dir e"
proof (induction top_dir node arbitrary: root dirs nondirs rule: os_walk.induct)
  case (1 top_dir entries)
  let ?dirs = "filter (\<lambda>entry. is_dir (snd entry)) entries"
  from "1.prems"(1) [unfolded set_os_walk_Directory] consider
    (head) "root = top_dir" "nondirs = filter (\<lambda>entry. \<not> is_dir (snd entry)) entries"
  | (sub) entry where "entry \<in> set ?dirs" "\<not> islink (snd entry)"
      "(root, dirs, nondirs) \<in> set (os_walk (path_join top_dir (fst entry)) (snd entry))"
    by auto
  then show ?case
  proof cases
    case head
    with "1.prems"(2) show ?thesis by (auto intro: listed.here)
  next
    case sub
    from "1.IH" [OF refl refl sub(1) sub(2) sub(3) "1.prems"(2)]
    have ih: "listed (path_join top_dir (fst entry)) (snd entry) root name e" and nd: "\<not> is_dir e"
      by simp_all
    from sub(1) have "is_dir (snd entry)" and mem: "entry \<in> set entries" by simp_all
    with sub(2) obtain es where es: "snd entry = Directory es" using dir_not_link by blast
    with mem have "(fst entry, Directory es) \<in> set entries" by (metis prod.collapse)
    with ih es have "listed top_dir (Directory entries) root name e"
      by (auto intro: listed.below)
    with nd show ?thesis by simp
  qed
qed simp_all

lemma listed_os_walk:
  "listed top_dir node root name e \<Longrightarrow> \<not> is_dir e
   \<Longrightarrow> \<exists>dirs nondirs. (root, dirs, nondirs) \<in> set (os_walk top_dir node) \<and> (name, e) \<in> set nondirs"
proof (induction rule: listed.induct)
  case (here name e entries top_dir)
  then have "(name, e) \<in> set (filter (\<lambda>entry. \<not> is_dir (snd entry)) entries)" by simp
  then show ?case unfolding set_os_walk_Directory by blast
next
  case (below d sub entries top_dir root name e)
  from below.IH [OF below.prems] obtain dirs nondirs where
    t: "(root, dirs, nondirs) \<in> set (os_walk (path_join top_dir d) (Directory sub))"
    and n: "(name, e) \<in> set nondirs" by blast
  have m: "(d, Directory sub) \<in> {x \<in> set entries. is_dir (snd x) \<and> \<not> islink (snd x)}"
    using below.hyps(1) by simp
  have "(root, dirs, nondirs)
      \<in> set (os_walk (path_join top_dir (fst (d, Directory sub))) (snd (d, Directory sub)))"
    using t by (simp only: fst_conv snd_conv)
  with m have "(root, dirs, nondirs)
      \<in> (\<Union>entry \<in> {x \<in> set entries. is_dir (snd x) \<and> \<not> islink (snd x)}.
            set (os_walk (path_join top_dir (fst entry)) (snd entry)))"
    by (rule UN_I)
  then have "(root, dirs, nondirs) \<in> set (os_walk top_dir (Directory entries))"
    by (subst set_os_walk_Directory) (rule insertI2)
  with n show ?case by blast
qed

lemma isfile_not_dir: "isfile e \<Longrightarrow> \<not> is_dir e"
  by (cases e) simp_all

lemma set_list_fastq:
  assumes "view my_path = Some node"
  shows "set (list_fastq view my_path)
    = {path_join root name | root name e.
         listed my_path node root name e \<and> isfile e \<and> fastq_suffix name}"
    (is "?L = ?R")
proof
  show "?L \<subseteq> ?R"
  proof
    fix p assume "p \<in> ?L"
    with in_list_fastq [of "view" my_path node p] assms
    obtain root dirs nondirs name e where
      "(root, dirs, nondirs) \<in> set (os_walk my_path node)" "(name, e) \<in> set nondirs"
      "isfile e" "fastq_suffix name" "p = path_join root name"
      by blast
    with os_walk_listed show "p \<in> ?R" by blast
  qed
  show "?R \<subseteq> ?L"
  proof
    fix p assume "p \<in> ?R"
    then obtain root name e where l: "listed my_path node root name e" and f: "isfile e"
      and s: "fastq_suffix name" and p: "p = path_join root name" by blast
    from listed_os_walk [OF l isfile_not_dir [OF f]] obtain dirs nondirs where
      "(root, dirs, nondirs) \<in> set (os_walk my_path node)" "(name, e) \<in> set nondirs" by blast
    with f s p in_list_fastq [of "view" my_path node p] assms show "p \<in> ?L"
      by blast
  qed
qed

lemma isabs_path_join: "isabs a \<Longrightarrow> isabs (path_join a b)"
  by (cases a) (auto simp: isabs_def path_join_def startswith_def)

lemma listed_isabs: "listed top_dir node root name e \<Longrightarrow> isabs top_dir \<Longrightarrow> isabs root"
  by (induction rule: listed.induct) (auto simp: isabs_path_join)

text \<open>
  C10. When the root path does not resolve to a directory (it does not exist, or it is a
  file or anything else), \<open>list_fastq\<close> returns the empty list; the function has no way to
  raise.
\<close>

theorem list_fastq_no_directory:
  assumes "\<forall>entries. view my_path \<noteq> Some (Directory entries)"
  shows "list_fastq view my_path = []"
proof (cases "view my_path")
  case None
  then show ?thesis by (simp add: list_fastq_def)
next
  case (Some node)
  with assms have "os_walk my_path node = []" by (cases node) simp_all
  with Some show ?thesis by (simp add: list_fastq_def)
qed

theorem list_fastq_no_directory_witness:
  "(\<forall>entries. [''reads.fastq'' \<mapsto> Regular] ''nowhere'' \<noteq> Some (Directory entries))
   \<and> list_fastq [''reads.fastq'' \<mapsto> Regular] ''nowhere'' = []
   \<and> (\<forall>entries. [''reads.fastq'' \<mapsto> Regular] ''reads.fastq'' \<noteq> Some (Directory entries))
   \<and> list_fastq [''reads.fastq'' \<mapsto> Regular] ''reads.fastq'' = []"
  using list_fastq_no_directory [of "[''reads.fastq'' \<mapsto> Regular]" "''nowhere''"]
    list_fastq_no_directory [of "[''reads.fastq'' \<mapsto> Regular]" "''reads.fastq''"]
  by simp

text \<open>
  C4. As stated the claim fails on the paths: \<open>list_fastq\<close> joins each file name to the
  root it was given, and a relative root gives relative paths.
\<close>

theorem list_fastq_relative:
  "list_fastq [''data'' \<mapsto> Directory [(''s1_R1.fastq'', Regular)]] ''data'' = [''data/s1_R1.fastq'']
   \<and> \<not> isabs ''data/s1_R1.fastq''"
  by (simp add: list_fastq_def path_join_def startswith_def endswith_def fastq_suffix_def isabs_def)

text \<open>
  C4, amended. For every root that resolves to a directory, \<open>list_fastq\<close> returns exactly
  the paths \<open>os.path.join(root, name)\<close> of the entries found by the recursive traversal
  that are files (regular files, or links to them) and whose names end with \<open>.fastq\<close>,
  \<open>.fastq.gz\<close>, \<open>.fq\<close> or \<open>.fq.gz\<close>; the paths are absolute when the root given is
  absolute. The function reads the tree and returns a list: it changes nothing.
\<close>

theorem list_fastq_exact:
  assumes "view my_path = Some node"
  shows "set (list_fastq view my_path)
      = {path_join root name | root name e.
           listed my_path node root name e \<and> isfile e \<and> fastq_suffix name}
    \<and> (isabs my_path \<longrightarrow> (\<forall>p \<in> set (list_fastq view my_path). isabs p))"
proof -
  have s: "set (list_fastq view my_path)
      = {path_join root name | root name e.
           listed my_path node root name e \<and> isfile e \<and> fastq_suffix name}"
    using assms by (rule set_list_fastq)
  have "isabs p" if "isabs my_path" and "p \<in> set (list_fastq view my_path)" for p
  proof -
    from that(2) s obtain root name e where "listed my_path node root name e" "p = path_join root name"
      by blast
    with that(1) show ?thesis using listed_isabs isabs_path_join by blast
  qed
  with s show ?thesis by blast
qed

theorem list_fastq_exact_witness:
  "[''/data'' \<mapsto> Directory [(''s1_R1.fastq'', Regular), (''notes.txt'', Regular),
        (''sub'', Directory [(''s2_R1.fq.gz'', Regular)])]] ''/data''
     = Some (Directory [(''s1_R1.fastq'', Regular), (''notes.txt'', Regular),
        (''sub'', Directory [(''s2_R1.fq.gz'', Regular)])])
   \<and> isabs ''/data''
   \<and> list_fastq [''/data'' \<mapsto> Directory [(''s1_R1.fastq'', Regular), (''notes.txt'', Regular),
        (''sub'', Directory [(''s2_R1.fq.gz'', Regular)])]] ''/data''
     = [''/data/s1_R1.fastq'', ''/data/sub/s2_R1.fq.gz'']
   \<and> {''/data/s1_R1.fastq'', ''/data/sub/s2_R1.fq.gz''}
     = {path_join root name | root name e.
         listed ''/data'' (Directory [(''s1_R1.fastq'', Regular), (''notes.txt'', Regular),
           (''sub'', Directory [(''s2_R1.fq.gz'', Regular)])]) root name e
         \<and> isfile e \<and> fastq_suffix name}
   \<and> isabs ''/data/s1_R1.fastq'' \<and> isabs ''/data/sub/s2_R1.fq.gz''"
proof -
  let ?node = "Directory [(''s1_R1.fastq'', Regular), (''notes.txt'', Regular),
        (''sub'', Directory [(''s2_R1.fq.gz'', Regular)])]"
  have v: "[''/data'' \<mapsto> ?node] ''/data'' = Some ?node" by simp
  have a: "isabs ''/data''" by (simp add: isabs_def startswith_def)
  have l: "list_fastq [''/data'' \<mapsto> ?node] ''/data'' = [''/data/s1_R1.fastq'', ''/data/sub/s2_R1.fq.gz'']"
    by (simp add: list_fastq_def path_join_def startswith_def endswith_def fastq_suffix_def)
  note t = list_fastq_exact [of "[''/data'' \<mapsto> ?node]" "''/data''" ?node, OF v]
  from t have "set (list_fastq [''/data'' \<mapsto> ?node] ''/data'')
      = {path_join root name | root name e.
           listed ''/data'' ?node root name e \<and> isfile e \<and> fastq_suffix name}" ..
  then have t1: "{''/data/s1_R1.fastq'', ''/data/sub/s2_R1.fq.gz''}
      = {path_join root name | root name e.
           listed ''/data'' ?node root name e \<and> isfile e \<and> fastq_suffix name}"
    by (simp only: l list.set)
  from t a have "\<forall>p \<in> set (list_fastq [''/data'' \<mapsto> ?node] ''/data''). isabs p"
    by blast
  then have t2: "isabs ''/data/s1_R1.fastq''" and t3: "isabs ''/data/sub/s2_R1.fq.gz''"
    by (simp_all only: l list.set ball_simps insert_iff)
  show ?thesis by (intro conjI) (rule v a l t1 t2 t3)+
qed

section \<open>What \<open>change_taxonomy_file_header\<close> does\<close>










lemma header_written:
  "files (write_file (input_taxo @ ''.tmp'') taxonomy_header (open_w (input_taxo @ ''.tmp'') w))
   = (files w)(input_taxo @ ''.tmp'' \<mapsto> taxonomy_header)"
  by (simp add: write_file_def open_w_def)






text \<open>
  C9. On an empty input file, \<open>next(in_f)\<close> raises \<open>StopIteration\<close>: the call ends with
  that exception, \<open>os.replace\<close> is never reached, the input path holds the empty content
  in every world the call goes through, and the \<open>.tmp\<close> file is left with the new header
  alone.
\<close>

theorem change_taxonomy_file_header_empty:
  assumes "files w input_taxo = Some []"
  shows "fst (change_taxonomy_file_header input_taxo w) = Inl StopIteration
    \<and> files (last (snd (change_taxonomy_file_header input_taxo w))) input_taxo = Some []
    \<and> files (last (snd (change_taxonomy_file_header input_taxo w))) (input_taxo @ ''.tmp'')
        = Some (''#OTUID'' @ TAB # ''taxonomy'' @ TAB # ''confidence'' @ [LF])
    \<and> (\<forall>w' \<in> set (snd (change_taxonomy_file_header input_taxo w)). files w' input_taxo = Some [])"
proof -
  let ?tmp = "input_taxo @ ''.tmp''"
  let ?w1 = "open_w ?tmp w"
  let ?w2 = "write_file ?tmp taxonomy_header ?w1"
  have f1: "files ?w1 input_taxo = Some []" using assms by (simp add: open_w_def)
  have f2: "files ?w2 = (files w)(?tmp \<mapsto> taxonomy_header)" by (rule header_written)
  with assms have f2i: "files ?w2 input_taxo = Some []" by simp
  then have r: "open_r input_taxo ?w2 = Inr []" by (simp add: open_r_def)
  have run: "change_taxonomy_file_header input_taxo w = (Inl StopIteration, [?w1, ?w2])"
    unfolding change_taxonomy_file_header_def Let_def r by simp
  from f2 have "files ?w2 ?tmp = Some (''#OTUID'' @ TAB # ''taxonomy'' @ TAB # ''confidence'' @ [LF])"
    by (simp add: taxonomy_header_def)
  with f1 f2i show ?thesis by (simp add: run)
qed

theorem change_taxonomy_file_header_empty_witness:
  "files \<lparr>files = [''taxonomy.tsv'' \<mapsto> []], procs = []\<rparr> ''taxonomy.tsv'' = Some []
   \<and> fst (change_taxonomy_file_header ''taxonomy.tsv'' \<lparr>files = [''taxonomy.tsv'' \<mapsto> []], procs = []\<rparr>)
       = Inl StopIteration
   \<and> files (last (snd (change_taxonomy_file_header ''taxonomy.tsv''
         \<lparr>files = [''taxonomy.tsv'' \<mapsto> []], procs = []\<rparr>))) ''taxonomy.tsv'' = Some []
   \<and> files (last (snd (change_taxonomy_file_header ''taxonomy.tsv''
         \<lparr>files = [''taxonomy.tsv'' \<mapsto> []], procs = []\<rparr>))) ''taxonomy.tsv.tmp''
       = Some (''#OTUID'' @ TAB # ''taxonomy'' @ TAB # ''confidence'' @ [LF])"
  using change_taxonomy_file_header_empty
    [of "\<lparr>files = [''taxonomy.tsv'' \<mapsto> []], procs = []\<rparr>" "''taxonomy.tsv''"]
  by simp

section \<open>What \<open>make_folder\<close> does\<close>

lemma resolve_dir_append:
  "resolve_dir t cur (ps @ qs)
   = (case resolve_dir t cur ps of Inl e \<Rightarrow> Inl e | Inr d \<Rightarrow> resolve_dir t d qs)"
  by (induction ps arbitrary: cur) (auto split: option.splits inode.splits)

lemma resolve_dir_canon: "resolve_dir t cur ps = Inr d \<Longrightarrow> d = canon cur ps"
  by (induction ps arbitrary: cur) (auto split: option.splits inode.splits if_splits)

lemma canon_append: "canon cur (ps @ qs) = canon (canon cur ps) qs"
  by (induction ps arbitrary: cur) auto

lemma no_file_on_path_append:
  "no_file_on_path t cur (ps @ qs)
   \<longleftrightarrow> no_file_on_path t cur ps \<and> no_file_on_path t (canon cur ps) qs"
  by (induction ps arbitrary: cur) auto

lemma resolve_dir_errors:
  "resolve_dir t cur ps = Inl e \<Longrightarrow> e = FileNotFoundError \<or> e = NotADirectoryError"
  by (induction ps arbitrary: cur) (auto split: option.splits inode.splits if_splits)

lemma no_file_resolve:
  "no_file_on_path t cur ps \<Longrightarrow> resolve_dir t cur ps \<noteq> Inl NotADirectoryError"
  by (induction ps arbitrary: cur) (auto split: option.splits inode.splits if_splits)

lemma node_at_butlast:
  "well_formed t \<Longrightarrow> node_at t cur = Some IsDir \<Longrightarrow> node_at t (butlast cur) = Some IsDir"
  by (cases "cur = []") (auto simp: well_formed_def node_at_def)

lemma resolve_dir_is_dir:
  "well_formed t \<Longrightarrow> node_at t cur = Some IsDir \<Longrightarrow> resolve_dir t cur ps = Inr d
   \<Longrightarrow> node_at t d = Some IsDir"
proof (induction ps arbitrary: cur)
  case Nil
  then show ?case by simp
next
  case (Cons c cs)
  show ?case
  proof (cases "c = ''..''")
    case True
    with Cons.prems have "resolve_dir t (butlast cur) cs = Inr d" by simp
    moreover from Cons.prems have "node_at t (butlast cur) = Some IsDir" by (simp add: node_at_butlast)
    ultimately show ?thesis using Cons.IH Cons.prems(1) by blast
  next
    case False
    with Cons.prems(3) have "node_at t (cur @ [c]) = Some IsDir" and "resolve_dir t (cur @ [c]) cs = Inr d"
      by (auto split: option.splits inode.splits)
    then show ?thesis using Cons.IH Cons.prems(1) by blast
  qed
qed

lemma grows_refl: "grows t t"
  by (auto simp: grows_def)

lemma grows_trans: "grows t t1 \<Longrightarrow> grows t1 t2 \<Longrightarrow> grows t t2"
  unfolding grows_def by metis

lemma grows_node_at: "grows t t' \<Longrightarrow> node_at t p = Some n \<Longrightarrow> node_at t' p = Some n"
  by (auto simp: grows_def node_at_def)

lemma grows_no_file: "grows t t' \<Longrightarrow> node_at t p \<noteq> Some IsFile \<Longrightarrow> node_at t' p \<noteq> Some IsFile"
  unfolding grows_def node_at_def by (metis inode.distinct(1) option.inject)

lemma grows_resolve:
  "grows t t' \<Longrightarrow> resolve_dir t cur ps = Inr d \<Longrightarrow> resolve_dir t' cur ps = Inr d"
proof (induction ps arbitrary: cur)
  case Nil
  then show ?case by simp
next
  case (Cons c cs)
  show ?case
  proof (cases "c = ''..''")
    case True
    with Cons show ?thesis by simp
  next
    case False
    with Cons.prems(2) have n: "node_at t (cur @ [c]) = Some IsDir" and r: "resolve_dir t (cur @ [c]) cs = Inr d"
      by (auto split: option.splits inode.splits)
    from grows_node_at [OF Cons.prems(1) n] Cons.IH [OF Cons.prems(1) r] False show ?thesis by simp
  qed
qed

lemma grows_no_file_on_path:
  "grows t t' \<Longrightarrow> no_file_on_path t cur ps \<Longrightarrow> no_file_on_path t' cur ps"
  by (induction ps arbitrary: cur) (auto dest: grows_no_file)

lemma grows_update: "t p = None \<Longrightarrow> grows t (t(p \<mapsto> IsDir))"
  by (auto simp: grows_def)

lemma well_formed_update:
  assumes "well_formed t" and "p \<noteq> []" and "node_at t (butlast p) = Some IsDir" and "t p = None"
  shows "well_formed (t(p \<mapsto> IsDir))"
  unfolding well_formed_def
proof (intro allI impI)
  fix q assume q: "q \<noteq> [] \<and> (t(p \<mapsto> IsDir)) q \<noteq> None"
  have g: "grows t (t(p \<mapsto> IsDir))" using assms(4) by (rule grows_update)
  show "node_at (t(p \<mapsto> IsDir)) (butlast q) = Some IsDir"
  proof (cases "q = p")
    case True
    with assms(3) g show ?thesis by (simp add: grows_node_at)
  next
    case False
    with q have "t q \<noteq> None" by simp
    with q assms(1) have "node_at t (butlast q) = Some IsDir" by (simp add: well_formed_def)
    with g show ?thesis by (simp add: grows_node_at)
  qed
qed

lemma mkdir_parents_exists:
  assumes "os_mkdir t start parts = Inl FileExistsError" and "resolve_dir t start parts = Inr d"
  shows "mkdir_parents t start parts = Inr t" and "mkdir_exist_ok t start parts = Inr t"
  using assms by (simp_all add: mkdir_parents.simps mkdir_exist_ok_def is_dir_path_def)

lemma mkdir_parents_created:
  assumes "os_mkdir t start parts = Inr t'"
  shows "mkdir_parents t start parts = Inr t'" and "mkdir_exist_ok t start parts = Inr t'"
  using assms by (simp_all add: mkdir_parents.simps mkdir_exist_ok_def)

lemma os_mkdir_snoc:
  "os_mkdir t start (ps @ [c])
   = (case resolve_dir t start ps of
        Inl e \<Rightarrow> Inl e
      | Inr d \<Rightarrow>
          if c = ''..'' then Inl FileExistsError
          else (case node_at t (d @ [c]) of
                  Some n \<Rightarrow> Inl FileExistsError
                | None \<Rightarrow> Inr (t(d @ [c] \<mapsto> IsDir))))"
  by (simp add: os_mkdir_def split: sum.splits option.splits)

lemma last_component:
  assumes wf: "well_formed t" and sd: "node_at t start = Some IsDir"
    and r: "resolve_dir t start ps = Inr d" and nf: "no_file_on_path t start (ps @ [c])"
  shows "\<exists>t'. mkdir_parents t start (ps @ [c]) = Inr t' \<and> mkdir_exist_ok t start (ps @ [c]) = Inr t'
    \<and> grows t t' \<and> well_formed t' \<and> resolve_dir t' start (ps @ [c]) = Inr (canon start (ps @ [c]))"
proof -
  from r have d: "d = canon start ps" by (rule resolve_dir_canon)
  from wf sd r have dd: "node_at t d = Some IsDir" by (rule resolve_dir_is_dir)
  show ?thesis
  proof (cases "c = ''..''")
    case True
    with r have m: "os_mkdir t start (ps @ [c]) = Inl FileExistsError" by (simp add: os_mkdir_snoc)
    from r True have res: "resolve_dir t start (ps @ [c]) = Inr (butlast d)"
      by (simp add: resolve_dir_append)
    from True d have "canon start (ps @ [c]) = butlast d" by (simp add: canon_append)
    with res mkdir_parents_exists [OF m res] wf show ?thesis by (auto intro: grows_refl)
  next
    case False
    from nf d False have nofile: "node_at t (d @ [c]) \<noteq> Some IsFile"
      by (simp add: no_file_on_path_append)
    from False d have cn: "canon start (ps @ [c]) = d @ [c]" by (simp add: canon_append)
    show ?thesis
    proof (cases "node_at t (d @ [c])")
      case None
      then have tn: "t (d @ [c]) = None" by (simp add: node_at_def)
      let ?t = "t(d @ [c] \<mapsto> IsDir)"
      from r False None have m: "os_mkdir t start (ps @ [c]) = Inr ?t" by (simp add: os_mkdir_snoc)
      have g: "grows t ?t" using tn by (rule grows_update)
      have w: "well_formed ?t" using wf _ _ tn by (rule well_formed_update) (simp_all add: dd)
      from grows_resolve [OF g r] False have "resolve_dir ?t start (ps @ [c]) = Inr (d @ [c])"
        by (simp add: resolve_dir_append node_at_def)
      with cn mkdir_parents_created [OF m] g w show ?thesis by auto
    next
      case (Some n)
      with nofile have n: "node_at t (d @ [c]) = Some IsDir" by (cases n) simp_all
      with r False have m: "os_mkdir t start (ps @ [c]) = Inl FileExistsError"
        by (simp add: os_mkdir_snoc)
      from r False n have res: "resolve_dir t start (ps @ [c]) = Inr (d @ [c])"
        by (simp add: resolve_dir_append)
      with cn mkdir_parents_exists [OF m res] wf show ?thesis by (auto intro: grows_refl)
    qed
  qed
qed

lemma mkdir_parents_succeeds:
  "well_formed t \<Longrightarrow> node_at t start = Some IsDir \<Longrightarrow> no_file_on_path t start parts
   \<Longrightarrow> \<exists>t'. mkdir_parents t start parts = Inr t' \<and> grows t t' \<and> well_formed t'
         \<and> resolve_dir t' start parts = Inr (canon start parts)"
proof (induction parts arbitrary: t rule: rev_induct)
  case Nil
  have "os_mkdir t start [] = Inl FileExistsError" by (simp add: os_mkdir_def)
  from mkdir_parents_exists(1) [OF this, of start] Nil.prems(1) show ?case
    by (auto intro: grows_refl)
next
  case (snoc c ps)
  show ?case
  proof (cases "resolve_dir t start ps")
    case (Inr d)
    from last_component [OF snoc.prems(1,2) Inr snoc.prems(3)] show ?thesis by blast
  next
    case (Inl e)
    from snoc.prems(3) have nfp: "no_file_on_path t start ps" by (simp add: no_file_on_path_append)
    with Inl resolve_dir_errors [OF Inl] no_file_resolve [OF nfp] have e: "e = FileNotFoundError" by auto
    with Inl have m: "os_mkdir t start (ps @ [c]) = Inl FileNotFoundError" by (simp add: os_mkdir_snoc)
    from snoc.IH [OF snoc.prems(1,2) nfp] obtain t1 where
      p: "mkdir_parents t start ps = Inr t1" and g1: "grows t t1" and w1: "well_formed t1"
      and r1: "resolve_dir t1 start ps = Inr (canon start ps)" by blast
    have run: "mkdir_parents t start (ps @ [c]) = mkdir_exist_ok t1 start (ps @ [c])"
      by (subst mkdir_parents.simps) (simp add: m p)
    from grows_node_at [OF g1 snoc.prems(2)] have s1: "node_at t1 start = Some IsDir" .
    from grows_no_file_on_path [OF g1 snoc.prems(3)] have nf1: "no_file_on_path t1 start (ps @ [c])" .
    from last_component [OF w1 s1 r1 nf1] obtain t' where
      "mkdir_exist_ok t1 start (ps @ [c]) = Inr t'" "grows t1 t'" "well_formed t'"
      "resolve_dir t' start (ps @ [c]) = Inr (canon start (ps @ [c]))" by blast
    with run grows_trans [OF g1] show ?thesis by auto
  qed
qed

lemma mkdir_parents_noop:
  assumes "resolve_dir t start parts = Inr d"
  shows "mkdir_parents t start parts = Inr t"
proof (cases parts rule: rev_cases)
  case Nil
  have "os_mkdir t start [] = Inl FileExistsError" by (simp add: os_mkdir_def)
  from mkdir_parents_exists(1) [OF this, of start] Nil show ?thesis by simp
next
  case (snoc ps c)
  with assms obtain d0 where r0: "resolve_dir t start ps = Inr d0" and r1: "resolve_dir t d0 [c] = Inr d"
    by (auto simp: resolve_dir_append split: sum.splits)
  from r1 have "c = ''..'' \<or> node_at t (d0 @ [c]) = Some IsDir"
    by (auto split: if_splits option.splits inode.splits)
  with r0 have "os_mkdir t start (ps @ [c]) = Inl FileExistsError"
    by (auto simp: os_mkdir_snoc)
  from mkdir_parents_exists(1) [OF this] assms snoc show ?thesis by simp
qed

lemma resolve_dir_prefix:
  "resolve_dir t start parts = Inr d \<Longrightarrow> \<exists>d'. resolve_dir t start (take k parts) = Inr d'"
proof -
  assume "resolve_dir t start parts = Inr d"
  then have "resolve_dir t start (take k parts @ drop k parts) = Inr d" by simp
  then show ?thesis unfolding resolve_dir_append by (auto split: sum.splits)
qed

lemma make_folder_file_in_the_way:
  "make_folder ''results'' \<lparr>nodes = [[''results''] \<mapsto> IsFile], cwd = []\<rparr> = Inl FileExistsError"
  by (simp add: make_folder_def mkdir_parents.simps os_mkdir_def is_dir_path_def node_at_def
      path_parts_def anchor_def startswith_def)

text \<open>
  C8. In a well-formed tree, when no file stands where the path needs a directory (the one
  error of the file system that the tree can give here; permissions and disk space are not
  modelled), \<open>make_folder\<close> returns normally; a second call returns normally too and
  changes nothing; every prefix of the path, the missing ancestors included, is then a
  directory; nothing that existed is changed; and on a path that is a directory already
  the call changes nothing.
\<close>

theorem make_folder_idempotent:
  assumes "well_formed (nodes s)" and "node_at (nodes s) (cwd s) = Some IsDir"
    and "no_file_on_path (nodes s) (anchor s folder) (path_parts folder)"
  shows "\<exists>s'. make_folder folder s = Inr s'
    \<and> make_folder folder s' = Inr s'
    \<and> (\<forall>k. is_dir_path (nodes s') (anchor s' folder) (take k (path_parts folder)))
    \<and> grows (nodes s) (nodes s')
    \<and> (is_dir_path (nodes s) (anchor s folder) (path_parts folder) \<longrightarrow> s' = s)"
proof -
  let ?start = "anchor s folder" and ?parts = "path_parts folder"
  from assms(2) have sd: "node_at (nodes s) ?start = Some IsDir"
    by (auto simp: anchor_def node_at_def split: if_splits)
  from mkdir_parents_succeeds [OF assms(1) sd assms(3)] obtain t' where
    m: "mkdir_parents (nodes s) ?start ?parts = Inr t'" and g: "grows (nodes s) t'"
    and r: "resolve_dir t' ?start ?parts = Inr (canon ?start ?parts)" by blast
  let ?s = "s\<lparr>nodes := t'\<rparr>"
  have a: "anchor ?s folder = ?start" by (simp add: anchor_def)
  from m have first: "make_folder folder s = Inr ?s" by (simp add: make_folder_def)
  from mkdir_parents_noop [OF r] have second: "make_folder folder ?s = Inr ?s"
    by (simp add: make_folder_def a)
  have present: "is_dir_path (nodes ?s) (anchor ?s folder) (take k ?parts)" for k
    using resolve_dir_prefix [OF r, of k] by (auto simp: is_dir_path_def a)
  have noop: "?s = s" if "is_dir_path (nodes s) ?start ?parts"
  proof -
    from that obtain d where "resolve_dir (nodes s) ?start ?parts = Inr d"
      by (auto simp: is_dir_path_def split: sum.splits)
    from mkdir_parents_noop [OF this] m show ?thesis by simp
  qed
  from first second present g noop show ?thesis by (intro exI [of _ ?s]) simp
qed

theorem make_folder_idempotent_witness:
  "well_formed (nodes \<lparr>nodes = [[''home''] \<mapsto> IsDir], cwd = [''home'']\<rparr>)
   \<and> node_at (nodes \<lparr>nodes = [[''home''] \<mapsto> IsDir], cwd = [''home'']\<rparr>)
        (cwd \<lparr>nodes = [[''home''] \<mapsto> IsDir], cwd = [''home'']\<rparr>) = Some IsDir
   \<and> no_file_on_path (nodes \<lparr>nodes = [[''home''] \<mapsto> IsDir], cwd = [''home'']\<rparr>)
        (anchor \<lparr>nodes = [[''home''] \<mapsto> IsDir], cwd = [''home'']\<rparr> ''out/its/logs'')
        (path_parts ''out/its/logs'')
   \<and> path_parts ''out/its/logs'' = [''out'', ''its'', ''logs'']
   \<and> (\<exists>s'. make_folder ''out/its/logs'' \<lparr>nodes = [[''home''] \<mapsto> IsDir], cwd = [''home'']\<rparr> = Inr s'
         \<and> make_folder ''out/its/logs'' s' = Inr s'
         \<and> is_dir_path (nodes s') [''home''] [''out'', ''its'', ''logs'']
         \<and> is_dir_path (nodes s') [''home''] [''out'', ''its'']
         \<and> is_dir_path (nodes s') [''home''] [''out''])"
proof -
  let ?s = "\<lparr>nodes = [[''home''] \<mapsto> IsDir], cwd = [''home'']\<rparr>"
  have w: "well_formed (nodes ?s)" by (auto simp: well_formed_def node_at_def split: if_splits)
  have c: "node_at (nodes ?s) (cwd ?s) = Some IsDir" by (simp add: node_at_def)
  have p: "path_parts ''out/its/logs'' = [''out'', ''its'', ''logs'']" by (simp add: path_parts_def)
  have a: "anchor ?s ''out/its/logs'' = [''home'']" by (simp add: anchor_def startswith_def)
  have n: "no_file_on_path (nodes ?s) (anchor ?s ''out/its/logs'') (path_parts ''out/its/logs'')"
    by (simp add: p a node_at_def)
  from make_folder_idempotent [OF w c n] obtain s' where
    1: "make_folder ''out/its/logs'' ?s = Inr s'" and 2: "make_folder ''out/its/logs'' s' = Inr s'"
    and 3: "\<forall>k. is_dir_path (nodes s') (anchor s' ''out/its/logs'') (take k (path_parts ''out/its/logs''))"
    by blast
  from 1 have "cwd s' = [''home'']" by (auto simp: make_folder_def split: sum.splits)
  then have a': "anchor s' ''out/its/logs'' = [''home'']" by (simp add: anchor_def startswith_def)
  from 3 [rule_format, of 3] 3 [rule_format, of 2] 3 [rule_format, of 1]
  have "is_dir_path (nodes s') [''home''] [''out'', ''its'', ''logs'']"
    "is_dir_path (nodes s') [''home''] [''out'', ''its'']"
    "is_dir_path (nodes s') [''home''] [''out'']"
    by (simp_all add: a' p)
  with 1 2 w c n p show ?thesis by blast
qed

end
